theory Spec2Isabelle
  imports Main "HOL-Library.DAList" "HOL-Library.Sublist" "HOL-Library.Multiset"
begin

section \<open>Common data\<close>

text \<open>
  Instants are integers counting microseconds (the resolution of Python's
  \<^verbatim>\<open>datetime\<close>); \<^verbatim>\<open>isoformat\<close> followed by \<^verbatim>\<open>fromisoformat\<close> is the identity on
  them, so a stored \<^verbatim>\<open>sent_at\<close> is kept as the instant itself. Date arithmetic is
  done on unbounded integers: the year range 1..9999 of \<^verbatim>\<open>datetime\<close> is not modelled.
  Strings are lists of 8-bit characters; text is taken to be ASCII, and the few
  non-ASCII literals of the source are written as their UTF-8 bytes.
\<close>

type_synonym instant = int

definition timedelta_days :: "int \<Rightarrow> int" where
  "timedelta_days d = d * 86400000000"

definition timedelta_hours :: "int \<Rightarrow> int" where
  "timedelta_hours h = h * 3600000000"

text \<open>
  The exceptions the modelled code raises, catches or lets through, each with the text
  \<^verbatim>\<open>str(e)\<close> gives. All but \<open>KeyboardInterrupt\<close> are subclasses of
  \<^verbatim>\<open>Exception\<close>.
\<close>

datatype py_exception =
    KeyError string
  | OSError string
  | JSONDecodeError string
  | TelegramError string
  | OtherException string
  | KeyboardInterrupt

fun is_Exception :: "py_exception \<Rightarrow> bool" where
  "is_Exception KeyboardInterrupt = False"
| "is_Exception _ = True"

fun is_TelegramError :: "py_exception \<Rightarrow> bool" where
  "is_TelegramError (TelegramError _) = True"
| "is_TelegramError _ = False"

fun is_JSONDecodeError :: "py_exception \<Rightarrow> bool" where
  "is_JSONDecodeError (JSONDecodeError _) = True"
| "is_JSONDecodeError _ = False"

fun str_exc :: "py_exception \<Rightarrow> string" where
  "str_exc (KeyError k) = [CHR 0x27] @ k @ [CHR 0x27]"
| "str_exc (OSError m) = m"
| "str_exc (JSONDecodeError m) = m"
| "str_exc (TelegramError m) = m"
| "str_exc (OtherException m) = m"
| "str_exc KeyboardInterrupt = []"

text \<open>
  An article is a Python dict. Keys that some reader fetches with \<^verbatim>\<open>.get\<close> may be
  absent (\<open>None\<close>); \<^verbatim>\<open>published\<close> and \<^verbatim>\<open>source\<close> are only ever read from articles the
  normalizers built, which always carry them. \<^verbatim>\<open>matched_keywords\<close> is
  \<^verbatim>\<open>list(a_set)\<close>: its elements are those of the set, each once, in an order
  the string hash fixes, so the field holds the set.
\<close>

record article =
  url :: "string option"
  title :: "string option"
  description :: "string option"
  published :: instant
  source :: string
  matched_keywords :: "string set option"

text \<open>\<^verbatim>\<open>d.get(key, default)\<close>, \<^verbatim>\<open>d[key]\<close> on an optional field, and \<^verbatim>\<open>a or b\<close> on strings.\<close>

definition dict_get :: "'a option \<Rightarrow> 'a \<Rightarrow> 'a" where
  "dict_get field dflt = (case field of None \<Rightarrow> dflt | Some v \<Rightarrow> v)"

definition getitem :: "string \<Rightarrow> 'a option \<Rightarrow> py_exception + 'a" where
  "getitem key field = (case field of None \<Rightarrow> Inl (KeyError key) | Some v \<Rightarrow> Inr v)"

definition py_or :: "string \<Rightarrow> string \<Rightarrow> string" where
  "py_or a b = (if a \<noteq> [] then a else b)"

text \<open>\<^verbatim>\<open>xs[:n]\<close>: a negative bound counts from the end.\<close>

definition slice_to :: "'a list \<Rightarrow> int \<Rightarrow> 'a list" where
  "slice_to xs n = (if 0 \<le> n then take (nat n) xs else take (length xs - nat (- n)) xs)"


section \<open>storage.py: ArticleStorage\<close>

text \<open>One value of the persisted JSON object: \<^verbatim>\<open>{'sent_at', 'title', 'url'}\<close>.\<close>

record sent_record =
  sent_at :: instant
  sent_title :: string
  sent_url :: string

text \<open>
  The store is a Python dict (insertion-ordered, keys unique), hence an association
  list with distinct keys. The file at \<^verbatim>\<open>storage_path\<close> is absent, holds something
  \<^verbatim>\<open>json.load\<close> rejects, or holds such a dict (a file that decodes to some other JSON
  value is outside the model). \<open>read_error\<close> and \<open>write_error\<close> give the
  \<^verbatim>\<open>OSError\<close> that opening the file for reading or writing raises, if any; a failed
  open leaves the file as it was. Creating the parent directory is not modelled.
\<close>

type_synonym store = "(string, sent_record) alist"

datatype file_content = Missing | Undecodable | Decodes store

record storage =
  content :: file_content
  read_error :: "string option"
  write_error :: "string option"

text \<open>The body of the \<^verbatim>\<open>try\<close> in \<^verbatim>\<open>load_sent_articles\<close>: \<^verbatim>\<open>open\<close>, then \<^verbatim>\<open>json.load\<close>.\<close>

definition open_and_json_load :: "storage \<Rightarrow> py_exception + store" where
  "open_and_json_load st =
     (case read_error st of
        Some m \<Rightarrow> Inl (OSError m)
      | None \<Rightarrow>
          (case content st of
             Missing \<Rightarrow> Inl (OSError ''No such file or directory'')
           | Undecodable \<Rightarrow> Inl (JSONDecodeError ''Expecting value'')
           | Decodes d \<Rightarrow> Inr d))"

definition load_sent_articles :: "storage \<Rightarrow> py_exception + store" where
  "load_sent_articles st =
     (case open_and_json_load st of
        Inr d \<Rightarrow> Inr d
      | Inl e \<Rightarrow>
          if is_JSONDecodeError e then Inr DAList.empty
          else if is_Exception e then Inr DAList.empty
          else Inl e)"

definition save_sent_articles :: "store \<Rightarrow> storage \<Rightarrow> (py_exception + unit) \<times> storage" where
  "save_sent_articles data st =
     (case write_error st of
        None \<Rightarrow> (Inr (), st\<lparr>content := Decodes data\<rparr>)
      | Some m \<Rightarrow> (Inl (OSError m), st))"

definition ensure_storage_exists :: "storage \<Rightarrow> (py_exception + unit) \<times> storage" where
  "ensure_storage_exists st =
     (if content st = Missing then save_sent_articles DAList.empty st else (Inr (), st))"

definition is_sent :: "storage \<Rightarrow> string \<Rightarrow> py_exception + bool" where
  "is_sent st article_url =
     (case load_sent_articles st of
        Inl e \<Rightarrow> Inl e
      | Inr sent_articles \<Rightarrow> Inr (DAList.lookup sent_articles article_url \<noteq> None))"

definition new_record :: "instant \<Rightarrow> article \<Rightarrow> string \<Rightarrow> sent_record" where
  "new_record now a article_url =
     \<lparr>sent_at = now, sent_title = dict_get (title a) [], sent_url = article_url\<rparr>"

definition mark_as_sent :: "instant \<Rightarrow> article \<Rightarrow> storage \<Rightarrow> (py_exception + unit) \<times> storage" where
  "mark_as_sent now a st =
     (case load_sent_articles st of
        Inl e \<Rightarrow> (Inl e, st)
      | Inr sent_articles \<Rightarrow>
          (let article_url = dict_get (url a) []
           in if article_url = [] then (Inr (), st)
              else save_sent_articles
                     (DAList.update article_url (new_record now a article_url) sent_articles) st))"

text \<open>The loop body of \<^verbatim>\<open>mark_multiple_as_sent\<close>; the loop is a left fold of it.\<close>

definition mark_one :: "instant \<Rightarrow> article \<Rightarrow> store \<Rightarrow> store" where
  "mark_one current_time a sent_articles =
     (let article_url = dict_get (url a) []
      in if article_url \<noteq> []
         then DAList.update article_url (new_record current_time a article_url) sent_articles
         else sent_articles)"

definition mark_multiple_as_sent ::
  "instant \<Rightarrow> article list \<Rightarrow> storage \<Rightarrow> (py_exception + unit) \<times> storage" where
  "mark_multiple_as_sent now articles st =
     (case load_sent_articles st of
        Inl e \<Rightarrow> (Inl e, st)
      | Inr sent_articles \<Rightarrow>
          (let current_time = now
           in save_sent_articles (fold (mark_one current_time) articles sent_articles) st))"

definition cleanup_old_entries :: "instant \<Rightarrow> int \<Rightarrow> storage \<Rightarrow> (py_exception + int) \<times> storage" where
  "cleanup_old_entries now days st =
     (case load_sent_articles st of
        Inl e \<Rightarrow> (Inl e, st)
      | Inr sent_articles \<Rightarrow>
          (let cutoff_date = now - timedelta_days days;
               original_count = int (size sent_articles);
               kept = DAList.filter (\<lambda>(u, data). sent_at data > cutoff_date) sent_articles;
               removed_count = original_count - int (size kept)
           in if removed_count > 0
              then (case save_sent_articles kept st of
                      (Inl e, st') \<Rightarrow> (Inl e, st')
                    | (Inr _, st') \<Rightarrow> (Inr removed_count, st'))
              else (Inr removed_count, st)))"

text \<open>The dict \<^verbatim>\<open>get_stats\<close> returns; \<open>None\<close> is Python's \<^verbatim>\<open>None\<close>.\<close>

record stats =
  total :: "nat option"
  oldest :: "instant option"
  newest :: "instant option"

definition get_stats :: "storage \<Rightarrow> py_exception + stats" where
  "get_stats st =
     (case load_sent_articles st of
        Inl e \<Rightarrow> Inl e
      | Inr sent_articles \<Rightarrow>
          (case map (\<lambda>(u, data). sent_at data) (DAList.impl_of sent_articles) of
             [] \<Rightarrow> Inr \<lparr>total = Some 0, oldest = None, newest = None\<rparr>
           | d # ds \<Rightarrow>
               Inr \<lparr>total = Some (size sent_articles),
                    oldest = Some (fold min ds d),
                    newest = Some (fold max ds d)\<rparr>))"


section \<open>telegram_notifier.py: TelegramNotifier\<close>

text \<open>
  \<^verbatim>\<open>self.bot\<close> is the \<^verbatim>\<open>Bot\<close> built from the token, or \<^verbatim>\<open>None\<close>; likewise
  \<^verbatim>\<open>self.chat_id\<close>. The timezone only enters the header's time string, which the
  caller of this model supplies.
\<close>

record notifier =
  bot :: "string option"
  chat_id :: "string option"

definition TelegramNotifier :: "string \<Rightarrow> string \<Rightarrow> notifier" where
  "TelegramNotifier bot_token chat =
     (if bot_token = [] \<or> chat = [] then \<lparr>bot = None, chat_id = None\<rparr>
      else \<lparr>bot = Some bot_token, chat_id = Some chat\<rparr>)"

text \<open>Decimal numerals, as \<^verbatim>\<open>f"{idx}"\<close> prints them.\<close>

definition digit_char :: "nat \<Rightarrow> char" where
  "digit_char d = char_of (48 + d)"

function str_nat :: "nat \<Rightarrow> string" where
  "str_nat n = (if n < 10 then [digit_char n] else str_nat (n div 10) @ [digit_char (n mod 10)])"
  by pat_completeness auto
termination
  by (relation "measure (\<lambda>n. n)") auto

definition replace_char :: "char \<Rightarrow> string \<Rightarrow> string \<Rightarrow> string" where
  "replace_char c s text = concat (map (\<lambda>x. if x = c then s else [x]) text)"

definition escape_html :: "string \<Rightarrow> string" where
  "escape_html text =
     replace_char (CHR ''>'') ''&gt;''
       (replace_char (CHR ''<'') ''&lt;''
          (replace_char (CHR ''&'') ''&amp;'' text))"

fun join :: "string \<Rightarrow> string list \<Rightarrow> string" where
  "join sep [] = []"
| "join sep [x] = x"
| "join sep (x # y # ys) = x @ sep @ join sep (y # ys)"

definition newline :: string where
  "newline = [CHR 0x0A]"

text \<open>U+1F5DE U+FE0F (newspaper), U+2192 (arrow) and U+26A0 U+FE0F (warning sign).\<close>

definition newspaper :: string where
  "newspaper = [CHR 0xF0, CHR 0x9F, CHR 0x97, CHR 0x9E, CHR 0xEF, CHR 0xB8, CHR 0x8F]"

definition arrow :: string where
  "arrow = [CHR 0xE2, CHR 0x86, CHR 0x92]"

definition warning_sign :: string where
  "warning_sign = [CHR 0xE2, CHR 0x9A, CHR 0xA0, CHR 0xEF, CHR 0xB8, CHR 0x8F]"

text \<open>The two lines \<^verbatim>\<open>format_digest_message\<close> appends for the article numbered \<open>idx\<close>.\<close>

definition article_lines :: "nat \<times> article \<Rightarrow> string list" where
  "article_lines p =
     (case p of (idx, a) \<Rightarrow>
        (let t = escape_html (dict_get (title a) ''Untitled'');
             u = dict_get (url a) []
         in [str_nat idx @ ''. '' @ t, ''   '' @ arrow @ '' '' @ u @ newline]))"

definition format_digest_message :: "string \<Rightarrow> article list \<Rightarrow> int \<Rightarrow> string" where
  "format_digest_message time_str articles max_articles =
     (let header = newspaper @ '' <b>AI News Digest - '' @ time_str @ ''</b>'' @ newline;
          articles_to_show = slice_to articles max_articles;
          numbered = zip [1 ..< Suc (length articles_to_show)] articles_to_show
      in join newline (header # concat (map article_lines numbered)))"

text \<open>
  What one \<^verbatim>\<open>await self.bot.send_message(...)\<close> does, and what the notifier does to
  the outside world: a call of the transport with a message, or a sleep of so many
  seconds.
\<close>

datatype send_outcome = Delivered | Raises py_exception

datatype event = Send string | Sleep nat

text \<open>
  The \<^verbatim>\<open>for attempt in range(retry_count)\<close> loop of \<^verbatim>\<open>_send_message_async\<close>, over the
  attempts still to make. \<open>api attempt\<close> is the transport's behaviour at that attempt.
\<close>

fun send_attempts ::
  "(nat \<Rightarrow> send_outcome) \<Rightarrow> string \<Rightarrow> int \<Rightarrow> nat list \<Rightarrow> (py_exception + bool) \<times> event list" where
  "send_attempts api message retry_count [] = (Inr False, [])"
| "send_attempts api message retry_count (attempt # rest) =
     (case api attempt of
        Delivered \<Rightarrow> (Inr True, [Send message])
      | Raises e \<Rightarrow>
          if is_TelegramError e then
            (if int attempt < retry_count - 1
             then (case send_attempts api message retry_count rest of
                     (r, evs) \<Rightarrow> (r, Send message # Sleep (2 ^ attempt) # evs))
             else (Inr False, [Send message]))
          else if is_Exception e then (Inr False, [Send message])
          else (Inl e, [Send message]))"

definition send_message_async ::
  "notifier \<Rightarrow> (nat \<Rightarrow> send_outcome) \<Rightarrow> string \<Rightarrow> int \<Rightarrow> (py_exception + bool) \<times> event list" where
  "send_message_async self api message retry_count =
     (if bot self = None \<or> chat_id self = None \<or> chat_id self = Some [] then (Inr False, [])
      else send_attempts api message retry_count [0 ..< nat retry_count])"

text \<open>\<^verbatim>\<open>try: return asyncio.run(...) except Exception: return False\<close>.\<close>

definition except_Exception_False ::
  "(py_exception + bool) \<times> event list \<Rightarrow> (py_exception + bool) \<times> event list" where
  "except_Exception_False r =
     (case r of
        (Inl e, evs) \<Rightarrow> if is_Exception e then (Inr False, evs) else (Inl e, evs)
      | (Inr b, evs) \<Rightarrow> (Inr b, evs))"

definition send_digest ::
  "notifier \<Rightarrow> (nat \<Rightarrow> send_outcome) \<Rightarrow> string \<Rightarrow> article list \<Rightarrow> int \<Rightarrow>
   (py_exception + bool) \<times> event list" where
  "send_digest self api time_str articles max_articles =
     (if articles = [] then (Inr False, [])
      else
        (let message = format_digest_message time_str articles max_articles
         in except_Exception_False (send_message_async self api message 3)))"

definition send_error_notification ::
  "notifier \<Rightarrow> (nat \<Rightarrow> send_outcome) \<Rightarrow> string \<Rightarrow> (py_exception + bool) \<times> event list" where
  "send_error_notification self api error_message =
     (if bot self = None \<or> chat_id self = None \<or> chat_id self = Some [] then (Inr False, [])
      else
        (let message = warning_sign @ '' <b>AI News Alerts Error</b>'' @ newline @ newline
                       @ escape_html error_message
         in except_Exception_False (send_message_async self api message 1)))"


section \<open>keyword_matcher.py: KeywordMatcher\<close>

text \<open>
  The pattern of a keyword is \<^verbatim>\<open>\b\<close>, the keyword taken literally (\<^verbatim>\<open>re.escape\<close>),
  \<^verbatim>\<open>\b\<close>, compiled with \<^verbatim>\<open>re.IGNORECASE\<close>. On ASCII text, \<^verbatim>\<open>\w\<close> is a letter, a digit
  or the underscore, and ignoring case is comparing lower-cased letters.
\<close>

definition is_word_char :: "char \<Rightarrow> bool" where
  "is_word_char c =
     (let n = of_char c :: nat
      in (48 \<le> n \<and> n \<le> 57) \<or> (65 \<le> n \<and> n \<le> 90) \<or> (97 \<le> n \<and> n \<le> 122) \<or> n = 95)"

definition lower_char :: "char \<Rightarrow> char" where
  "lower_char c =
     (let n = of_char c :: nat in if 65 \<le> n \<and> n \<le> 90 then char_of (n + 32) else c)"

text \<open>\<^verbatim>\<open>\b\<close> at position \<open>p\<close>: exactly one of the characters before and at \<open>p\<close> is a word character.\<close>

definition word_boundary :: "string \<Rightarrow> nat \<Rightarrow> bool" where
  "word_boundary text p =
     ((0 < p \<and> p \<le> length text \<and> is_word_char (text ! (p - 1)))
      \<noteq> (p < length text \<and> is_word_char (text ! p)))"

definition literal_at :: "string \<Rightarrow> string \<Rightarrow> nat \<Rightarrow> bool" where
  "literal_at kw text i =
     (i + length kw \<le> length text
      \<and> map lower_char (take (length kw) (drop i text)) = map lower_char kw)"

definition pattern_matches_at :: "string \<Rightarrow> string \<Rightarrow> nat \<Rightarrow> bool" where
  "pattern_matches_at kw text i =
     (word_boundary text i \<and> literal_at kw text i \<and> word_boundary text (i + length kw))"

definition pattern_search :: "string \<Rightarrow> string \<Rightarrow> bool" where
  "pattern_search kw text = list_ex (pattern_matches_at kw text) [0 ..< Suc (length text)]"

definition article_text :: "article \<Rightarrow> string" where
  "article_text a = dict_get (title a) [] @ '' '' @ dict_get (description a) []"

definition find_matches :: "string list \<Rightarrow> article \<Rightarrow> string set" where
  "find_matches keywords a =
     (let text = article_text a
      in fold (\<lambda>keyword matched. if pattern_search keyword text then insert keyword matched
                                  else matched)
           keywords {})"

fun filter_articles :: "string list \<Rightarrow> article list \<Rightarrow> article list" where
  "filter_articles keywords [] = []"
| "filter_articles keywords (a # articles) =
     (let matched = find_matches keywords a
      in if matched \<noteq> {}
         then a\<lparr>matched_keywords := Some matched\<rparr> # filter_articles keywords articles
         else filter_articles keywords articles)"






section \<open>news_fetcher.py: RSSFetcher, NewsAPIFetcher, NewsFetcher\<close>

text \<open>
  A raw feed entry and a raw search hit, with the keys the normalizers read; an absent
  key is \<open>None\<close>. \<open>api_source_name\<close> is \<^verbatim>\<open>article_data['source']['name']\<close>, absent when
  either key is.
\<close>

record rss_entry =
  rss_link :: "string option"
  rss_title :: "string option"
  rss_summary :: "string option"
  rss_description :: "string option"
  rss_published :: "string option"
  rss_updated :: "string option"

record api_article =
  api_url :: "string option"
  api_title :: "string option"
  api_description :: "string option"
  api_content :: "string option"
  api_publishedAt :: "string option"
  api_source_name :: "string option"

record api_response =
  api_status :: string
  api_articles :: "api_article list"

text \<open>
  The collaborators outside the repository, as one run meets them: the feed parser and
  the search client (\<open>None\<close>: the call raises an \<^verbatim>\<open>Exception\<close>), the date parser
  (\<open>None\<close>: the string does not parse), the clock as read while each source is fetched
  (one reading for the cutoff and the entries of a source) and at the commit and the cleanup, the header's local time, and the transport's
  behaviour at each attempt of the digest and of the error alert.
\<close>

record env =
  feedparser_parse :: "string \<Rightarrow> rss_entry list option"
  date_parser_parse :: "string \<Rightarrow> instant option"
  get_everything :: "string \<Rightarrow> instant \<Rightarrow> api_response option"
  rss_clock :: "string \<Rightarrow> instant"
  api_clock :: instant
  mark_clock :: instant
  cleanup_clock :: instant
  digest_time_str :: string
  digest_api :: "nat \<Rightarrow> send_outcome"
  alert_api :: "nat \<Rightarrow> send_outcome"

text \<open>\<^verbatim>\<open>re.sub(r'<[^>]+>', '', s)\<close>: a tag is \<open><\<close>, one or more characters other than \<open>>\<close>, and \<open>>\<close>.\<close>

function strip_tags :: "string \<Rightarrow> string" where
  "strip_tags [] = []"
| "strip_tags (c # cs) =
     (if c = CHR ''<'' \<and> takeWhile (\<lambda>x. x \<noteq> CHR ''>'') cs \<noteq> []
         \<and> dropWhile (\<lambda>x. x \<noteq> CHR ''>'') cs \<noteq> []
      then strip_tags (tl (dropWhile (\<lambda>x. x \<noteq> CHR ''>'') cs))
      else c # strip_tags cs)"
  by pat_completeness auto
termination
proof (relation "measure length")
  show "wf (measure length)"
    by simp
next
  fix c :: char and cs :: string
  have "length (dropWhile (\<lambda>x. x \<noteq> CHR ''>'') cs) \<le> length cs"
    by (rule length_dropWhile_le)
  then show "(tl (dropWhile (\<lambda>x. x \<noteq> CHR ''>'') cs), c # cs) \<in> measure length"
    by simp
next
  fix c :: char and cs :: string
  show "(cs, c # cs) \<in> measure length"
    by simp
qed

text \<open>\<^verbatim>\<open>str.strip()\<close>, with the whitespace of ASCII: codes 9 to 13 and 28 to 32.\<close>

definition is_space :: "char \<Rightarrow> bool" where
  "is_space c = (let n = of_char c :: nat in (9 \<le> n \<and> n \<le> 13) \<or> (28 \<le> n \<and> n \<le> 32))"

definition py_strip :: "string \<Rightarrow> string" where
  "py_strip s = rev (dropWhile is_space (rev (dropWhile is_space s)))"

text \<open>The date handling both normalizers share: parse, else the current time.\<close>

definition published_or_now :: "env \<Rightarrow> instant \<Rightarrow> string \<Rightarrow> instant" where
  "published_or_now w now pub_date_str =
     (case (if pub_date_str \<noteq> [] then date_parser_parse w pub_date_str else None) of
        None \<Rightarrow> now
      | Some t \<Rightarrow> t)"

definition normalize_entry :: "env \<Rightarrow> instant \<Rightarrow> rss_entry \<Rightarrow> string \<Rightarrow> article option" where
  "normalize_entry w now entry source_name =
     (let u = dict_get (rss_link entry) []
      in if u = [] then None
         else
           (let t = dict_get (rss_title entry) ''Untitled'';
                d = py_or (dict_get (rss_summary entry) []) (dict_get (rss_description entry) []);
                d' = (if d \<noteq> [] then py_strip (strip_tags d) else d);
                pub_date_str =
                  py_or (dict_get (rss_published entry) []) (dict_get (rss_updated entry) [])
            in Some \<lparr>url = Some u, title = Some t, description = Some d',
                     published = published_or_now w now pub_date_str,
                     source = source_name, matched_keywords = None\<rparr>))"

text \<open>The loop over \<^verbatim>\<open>feed.entries\<close>, keeping what is valid and not older than the cutoff.\<close>

fun recent_entries :: "env \<Rightarrow> instant \<Rightarrow> instant \<Rightarrow> string \<Rightarrow> rss_entry list \<Rightarrow> article list" where
  "recent_entries w now cutoff_time source_name [] = []"
| "recent_entries w now cutoff_time source_name (entry # entries) =
     (case normalize_entry w now entry source_name of
        None \<Rightarrow> recent_entries w now cutoff_time source_name entries
      | Some a \<Rightarrow>
          if published a \<ge> cutoff_time
          then a # recent_entries w now cutoff_time source_name entries
          else recent_entries w now cutoff_time source_name entries)"

definition fetch_feed :: "env \<Rightarrow> string \<Rightarrow> string \<Rightarrow> int \<Rightarrow> article list" where
  "fetch_feed w feed_url source_name hours_ago =
     (case feedparser_parse w feed_url of
        None \<Rightarrow> []
      | Some entries \<Rightarrow>
          (let now = rss_clock w source_name;
               cutoff_time = now - timedelta_hours hours_ago
           in recent_entries w now cutoff_time source_name entries))"

definition normalize_article :: "env \<Rightarrow> instant \<Rightarrow> api_article \<Rightarrow> article option" where
  "normalize_article w now article_data =
     (let u = dict_get (api_url article_data) []
      in if u = [] then None
         else
           (let t = dict_get (api_title article_data) ''Untitled'';
                d = py_or (dict_get (api_description article_data) [])
                          (dict_get (api_content article_data) []);
                pub_date_str = dict_get (api_publishedAt article_data) [];
                source_name = dict_get (api_source_name article_data) ''NewsAPI''
            in Some \<lparr>url = Some u, title = Some t, description = Some d,
                     published = published_or_now w now pub_date_str,
                     source = source_name, matched_keywords = None\<rparr>))"

definition build_query :: "string list \<Rightarrow> string" where
  "build_query keywords = join '' OR '' (map (\<lambda>kw. [CHR 0x22] @ kw @ [CHR 0x22]) keywords)"

text \<open>An empty key leaves \<^verbatim>\<open>self.client\<close> at \<^verbatim>\<open>None\<close>: the search is skipped.\<close>

definition fetch_articles :: "env \<Rightarrow> string \<Rightarrow> string list \<Rightarrow> int \<Rightarrow> article list" where
  "fetch_articles w api_key keywords hours_ago =
     (if api_key = [] then []
      else
        (let now = api_clock w;
             from_date = now - timedelta_hours hours_ago
         in case get_everything w (build_query keywords) from_date of
              None \<Rightarrow> []
            | Some response \<Rightarrow>
                if api_status response = ''ok''
                then List.map_filter (normalize_article w now) (api_articles response)
                else []))"

text \<open>The deduplication loop, with its set of seen locators and its output so far.\<close>

fun dedup_loop :: "article list \<Rightarrow> string set \<Rightarrow> article list \<Rightarrow> py_exception + article list" where
  "dedup_loop [] seen_urls unique_articles = Inr unique_articles"
| "dedup_loop (a # all_articles) seen_urls unique_articles =
     (case getitem ''url'' (url a) of
        Inl e \<Rightarrow> Inl e
      | Inr u \<Rightarrow>
          if u \<notin> seen_urls
          then dedup_loop all_articles (insert u seen_urls) (unique_articles @ [a])
          else dedup_loop all_articles seen_urls unique_articles)"

text \<open>What the two \<^verbatim>\<open>extend\<close> steps collect: every feed in dict order, then the search.\<close>

definition collect_all :: "env \<Rightarrow> (string \<times> string) list \<Rightarrow> string \<Rightarrow> string list \<Rightarrow> int \<Rightarrow> article list" where
  "collect_all w rss_feeds api_key keywords hours_ago =
     concat (map (\<lambda>(source_name, feed_url). fetch_feed w feed_url source_name hours_ago) rss_feeds)
     @ fetch_articles w api_key keywords hours_ago"

definition fetch_all_articles ::
  "env \<Rightarrow> (string \<times> string) list \<Rightarrow> string \<Rightarrow> string list \<Rightarrow> int \<Rightarrow> py_exception + article list" where
  "fetch_all_articles w rss_feeds api_key keywords hours_ago =
     dedup_loop (collect_all w rss_feeds api_key keywords hours_ago) {} []"


section \<open>config.py and main.py\<close>

text \<open>The module constants \<^verbatim>\<open>main\<close> reads; three of them come from the process environment.\<close>

record config =
  KEYWORDS :: "string list"
  RSS_FEEDS :: "(string \<times> string) list"
  NEWSAPI_KEY :: string
  TELEGRAM_BOT_TOKEN :: string
  TELEGRAM_CHAT_ID :: string
  FETCH_WINDOW_HOURS :: int
  MAX_ARTICLES_IN_DIGEST :: int
  CLEANUP_DAYS :: int

definition repo_config :: "string \<Rightarrow> string \<Rightarrow> string \<Rightarrow> config" where
  "repo_config newsapi_key bot_token chat =
     \<lparr>KEYWORDS = [''OpenAI'', ''Anthropic'', ''Gemini AI'', ''AI agents'', ''agentic AI'',
                  ''agentic commerce'', ''agentic payments'', ''financial agents'',
                  ''agent protocol'', ''agent SDK''],
      RSS_FEEDS = [(''VentureBeat'', ''https://venturebeat.com/feed/''),
                   (''MIT Tech Review'', ''https://www.technologyreview.com/feed/''),
                   (''Ars Technica'', ''https://feeds.arstechnica.com/arstechnica/index'')],
      NEWSAPI_KEY = newsapi_key,
      TELEGRAM_BOT_TOKEN = bot_token,
      TELEGRAM_CHAT_ID = chat,
      FETCH_WINDOW_HOURS = 8,
      MAX_ARTICLES_IN_DIGEST = 5,
      CLEANUP_DAYS = 30\<rparr>"

text \<open>
  \<^verbatim>\<open>list.sort(key=..., reverse=True)\<close>: CPython keeps the sort stable by reversing
  the list, sorting it ascending with its stable sort, and reversing the result.
\<close>

definition sort_reverse :: "('a \<Rightarrow> int) \<Rightarrow> 'a list \<Rightarrow> 'a list" where
  "sort_reverse key xs = rev (sort_key key (rev xs))"

text \<open>Steps 5 and 6 of \<^verbatim>\<open>main\<close>: newest first, then the first \<^verbatim>\<open>MAX_ARTICLES_IN_DIGEST\<close>.\<close>

definition articles_to_send :: "config \<Rightarrow> article list \<Rightarrow> article list" where
  "articles_to_send cfg new_articles =
     slice_to (sort_reverse published new_articles) (MAX_ARTICLES_IN_DIGEST cfg)"

text \<open>Step 4: \<^verbatim>\<open>[a for a in matched_articles if not storage.is_sent(a['url'])]\<close>.\<close>

fun unsent_articles :: "storage \<Rightarrow> article list \<Rightarrow> py_exception + article list" where
  "unsent_articles st [] = Inr []"
| "unsent_articles st (a # matched_articles) =
     (case getitem ''url'' (url a) of
        Inl e \<Rightarrow> Inl e
      | Inr u \<Rightarrow>
          (case is_sent st u of
             Inl e \<Rightarrow> Inl e
           | Inr sent \<Rightarrow>
               (case unsent_articles st matched_articles of
                  Inl e \<Rightarrow> Inl e
                | Inr rest \<Rightarrow> Inr (if \<not> sent then a # rest else rest))))"

text \<open>The logging loop over the digest reads \<^verbatim>\<open>article['title']\<close> of each article.\<close>

fun log_articles :: "article list \<Rightarrow> py_exception + unit" where
  "log_articles [] = Inr ()"
| "log_articles (a # articles) =
     (case getitem ''title'' (title a) of
        Inl e \<Rightarrow> Inl e
      | Inr t \<Rightarrow> log_articles articles)"

text \<open>Steps 8 and 9: the commit, made only after a successful delivery, and the cleanup.\<close>

definition commit_and_cleanup ::
  "env \<Rightarrow> config \<Rightarrow> bool \<Rightarrow> article list \<Rightarrow> storage \<Rightarrow> (py_exception + unit) \<times> storage" where
  "commit_and_cleanup w cfg success batch st =
     (case (if success then mark_multiple_as_sent (mark_clock w) batch st else (Inr (), st)) of
        (Inl e, st1) \<Rightarrow> (Inl e, st1)
      | (Inr _, st1) \<Rightarrow>
          (case cleanup_old_entries (cleanup_clock w) (CLEANUP_DAYS cfg) st1 of
             (Inl e, st2) \<Rightarrow> (Inl e, st2)
           | (Inr removed, st2) \<Rightarrow> (Inr (), st2)))"

text \<open>
  A run of \<^verbatim>\<open>main\<close>: how it ended, the storage it left, what it did to the transport,
  and the value of \<^verbatim>\<open>success\<close> (\<open>None\<close> when the run did not get as far as the delivery).
\<close>

datatype exit = Returned | SysExit int

record run =
  outcome :: exit
  final :: storage
  events :: "event list"
  delivered :: "bool option"

text \<open>The body of the \<^verbatim>\<open>try\<close>, from the digest on (steps 5 to 9).\<close>

definition deliver ::
  "env \<Rightarrow> config \<Rightarrow> article list \<Rightarrow> storage \<Rightarrow>
   (py_exception + unit) \<times> storage \<times> event list \<times> bool option" where
  "deliver w cfg new_articles st =
     (let batch = articles_to_send cfg new_articles;
          self = TelegramNotifier (TELEGRAM_BOT_TOKEN cfg) (TELEGRAM_CHAT_ID cfg)
      in case log_articles batch of
           Inl e \<Rightarrow> (Inl e, st, [], None)
         | Inr _ \<Rightarrow>
             (case send_digest self (digest_api w) (digest_time_str w) batch
                     (MAX_ARTICLES_IN_DIGEST cfg) of
                (Inl e, evs) \<Rightarrow> (Inl e, st, evs, None)
              | (Inr success, evs) \<Rightarrow>
                  (case commit_and_cleanup w cfg success batch st of
                     (r, st') \<Rightarrow> (r, st', evs, Some success))))"

text \<open>The body of the \<^verbatim>\<open>try\<close>; each \<^verbatim>\<open>return\<close> is an \<open>Inr ()\<close>.\<close>

definition main_body ::
  "env \<Rightarrow> config \<Rightarrow> storage \<Rightarrow> (py_exception + unit) \<times> storage \<times> event list \<times> bool option" where
  "main_body w cfg st0 =
     (case ensure_storage_exists st0 of
        (Inl e, st) \<Rightarrow> (Inl e, st, [], None)
      | (Inr _, st) \<Rightarrow>
          (case get_stats st of
             Inl e \<Rightarrow> (Inl e, st, [], None)
           | Inr stats \<Rightarrow>
               (case fetch_all_articles w (RSS_FEEDS cfg) (NEWSAPI_KEY cfg) (KEYWORDS cfg)
                       (FETCH_WINDOW_HOURS cfg) of
                  Inl e \<Rightarrow> (Inl e, st, [], None)
                | Inr all_articles \<Rightarrow>
                    if all_articles = [] then (Inr (), st, [], None)
                    else
                      (let matched_articles = filter_articles (KEYWORDS cfg) all_articles
                       in if matched_articles = [] then (Inr (), st, [], None)
                          else
                            (case unsent_articles st matched_articles of
                               Inl e \<Rightarrow> (Inl e, st, [], None)
                             | Inr new_articles \<Rightarrow>
                                 if new_articles = [] then (Inr (), st, [], None)
                                 else deliver w cfg new_articles st)))))"

text \<open>
  \<^verbatim>\<open>main\<close>: a \<^verbatim>\<open>KeyboardInterrupt\<close> exits with status 0; any other exception sends the
  error alert, whose own outcome is dropped, and exits with status 1.
\<close>

definition main :: "env \<Rightarrow> config \<Rightarrow> storage \<Rightarrow> run" where
  "main w cfg st0 =
     (case main_body w cfg st0 of
        (Inr _, st, evs, d) \<Rightarrow> \<lparr>outcome = Returned, final = st, events = evs, delivered = d\<rparr>
      | (Inl e, st, evs, d) \<Rightarrow>
          if \<not> is_Exception e
          then \<lparr>outcome = SysExit 0, final = st, events = evs, delivered = d\<rparr>
          else
            (let self = TelegramNotifier (TELEGRAM_BOT_TOKEN cfg) (TELEGRAM_CHAT_ID cfg);
                 alert = send_error_notification self (alert_api w)
                           (''Critical error: '' @ str_exc e)
             in \<lparr>outcome = SysExit 1, final = st, events = evs @ snd alert, delivered = d\<rparr>))"


section \<open>Auxiliary notions for the statements\<close>

text \<open>
  The dict a load yields: the decoded file, or the empty dict when the file cannot be
  opened or decoded.
\<close>

definition current_store :: "storage \<Rightarrow> store" where
  "current_store st =
     (case read_error st of
        Some m \<Rightarrow> DAList.empty
      | None \<Rightarrow> (case content st of Decodes d \<Rightarrow> d | Undecodable \<Rightarrow> DAList.empty | Missing \<Rightarrow> DAList.empty))"

text \<open>The \<^verbatim>\<open>sent_at\<close> values of a store, in dict order.\<close>

definition sent_instants :: "store \<Rightarrow> instant list" where
  "sent_instants d = map (\<lambda>(u, data). sent_at data) (DAList.impl_of d)"

text \<open>
  Example stores, with the clock at day 100: records sent 31, 29 and exactly 30 days
  before.
\<close>

definition example_old :: sent_record where
  "example_old = \<lparr>sent_at = timedelta_days 100 - timedelta_days 31, sent_title = ''Old news'',
                  sent_url = ''https://example.org/old''\<rparr>"

definition example_new :: sent_record where
  "example_new = \<lparr>sent_at = timedelta_days 100 - timedelta_days 29, sent_title = ''Fresh news'',
                  sent_url = ''https://example.org/new''\<rparr>"


definition example_store :: store where
  "example_store =
     DAList.update ''https://example.org/new'' example_new
       (DAList.update ''https://example.org/old'' example_old DAList.empty)"

definition example_storage :: storage where
  "example_storage = \<lparr>content = Decodes example_store, read_error = None, write_error = None\<rparr>"


text \<open>
  The invariant of the persisted dict: every record carries its own key as \<^verbatim>\<open>url\<close>. A
  file that is absent or does not decode holds no record.
\<close>

definition keys_match :: "store \<Rightarrow> bool" where
  "keys_match d = list_all (\<lambda>(k, r). sent_url r = k) (DAList.impl_of d)"

definition file_keys_match :: "storage \<Rightarrow> bool" where
  "file_keys_match st =
     (case content st of Decodes d \<Rightarrow> keys_match d | Undecodable \<Rightarrow> True | Missing \<Rightarrow> True)"

text \<open>The mutating operations of \<^verbatim>\<open>ArticleStorage\<close>, and a sequence of calls of them.\<close>

datatype storage_op =
    MarkAsSent instant article
  | MarkMultipleAsSent instant "article list"
  | CleanupOldEntries instant int

fun apply_op :: "storage_op \<Rightarrow> storage \<Rightarrow> storage" where
  "apply_op (MarkAsSent now a) st = snd (mark_as_sent now a st)"
| "apply_op (MarkMultipleAsSent now articles) st = snd (mark_multiple_as_sent now articles st)"
| "apply_op (CleanupOldEntries now days) st = snd (cleanup_old_entries now days st)"

text \<open>An article whose \<^verbatim>\<open>url\<close> is present, non-empty and equal to \<open>u\<close>.\<close>

definition has_url :: "string \<Rightarrow> article \<Rightarrow> bool" where
  "has_url u a = (u \<noteq> [] \<and> url a = Some u)"

text \<open>An example article, and an example sequence of storage calls.\<close>

definition example_article :: article where
  "example_article =
     \<lparr>url = Some ''https://example.org/a'', title = Some ''OpenAI ships agents'',
      description = Some ''A short summary'', published = timedelta_days 100,
      source = ''Feed'', matched_keywords = None\<rparr>"

definition example_ops :: "storage_op list" where
  "example_ops =
     [MarkMultipleAsSent (timedelta_days 100)
        [example_article, example_article\<lparr>url := None\<rparr>, example_article\<lparr>url := Some []\<rparr>],
      CleanupOldEntries (timedelta_days 100) 30,
      MarkAsSent (timedelta_days 101) example_article]"

text \<open>
  Both credentials present: the notifier has a bot and a non-empty chat id.
\<close>

definition configured :: "notifier \<Rightarrow> bool" where
  "configured self = (bot self \<noteq> None \<and> chat_id self \<noteq> None \<and> chat_id self \<noteq> Some [])"

text \<open>
  The transport raises a \<^verbatim>\<open>TelegramError\<close> at each of the attempts 0 to \<open>k - 1\<close>.
\<close>

definition transient_until :: "(nat \<Rightarrow> send_outcome) \<Rightarrow> nat \<Rightarrow> bool" where
  "transient_until api k = list_all (\<lambda>i. case api i of Delivered \<Rightarrow> False | Raises e \<Rightarrow> is_TelegramError e) [0 ..< k]"

text \<open>
  What the attempts \<open>j\<close> to \<open>k - 1\<close> leave behind when each fails and is retried: the send, then a sleep of \<open>2 ^ i\<close> seconds after attempt \<open>i\<close>.
\<close>

definition backoff :: "string \<Rightarrow> nat \<Rightarrow> nat \<Rightarrow> event list" where
  "backoff message j k = concat (map (\<lambda>i. [Send message, Sleep (2 ^ i)]) [j ..< k])"

text \<open>
  Example transports: one that recovers at the third attempt, one that is down, one that fails with an unexpected error at the second attempt; and a configured notifier.
\<close>

definition flaky_api :: "nat \<Rightarrow> send_outcome" where
  "flaky_api i = (if i < 2 then Raises (TelegramError ''Timed out'') else Delivered)"

definition down_api :: "nat \<Rightarrow> send_outcome" where
  "down_api i = Raises (TelegramError ''Timed out'')"

definition broken_api :: "nat \<Rightarrow> send_outcome" where
  "broken_api i = (if i < 1 then Raises (TelegramError ''Timed out'') else Raises (OtherException ''boom''))"

definition example_notifier :: notifier where
  "example_notifier = TelegramNotifier ''123:token'' ''42''"

text \<open>
  Three new articles published 1, 3 and 2 microseconds before day 100, in that order.
\<close>

definition example_batch :: "article list" where
  "example_batch =
     [example_article\<lparr>url := Some ''u1'', published := timedelta_days 100 - 1\<rparr>,
      example_article\<lparr>url := Some ''u3'', published := timedelta_days 100 - 3\<rparr>,
      example_article\<lparr>url := Some ''u2'', published := timedelta_days 100 - 2\<rparr>]"

text \<open>
  A keyword that is not empty and begins and ends with a word character, as every keyword of \<^verbatim>\<open>config.py\<close> does.
\<close>

definition word_edged :: "string \<Rightarrow> bool" where
  "word_edged kw = (kw \<noteq> [] \<and> is_word_char (hd kw) \<and> is_word_char (last kw))"




text \<open>
  The articles of a list whose locator is not in \<open>seen\<close> and is not carried by an earlier article of the list.
\<close>

fun first_seen :: "string option set \<Rightarrow> article list \<Rightarrow> article list" where
  "first_seen seen [] = []"
| "first_seen seen (a # xs) =
     (if url a \<in> seen then first_seen seen xs else a # first_seen (insert (url a) seen) xs)"

text \<open>
  An article with a \<^verbatim>\<open>url\<close> that is present and not empty.
\<close>

definition has_locator :: "article \<Rightarrow> bool" where
  "has_locator a = (case url a of None \<Rightarrow> False | Some u \<Rightarrow> u \<noteq> [])"

text \<open>
  An example world: raw feed entries and search hits, two with the locator of \<open>entry_openai\<close>, one ten days old and its repost, one without a link, one with an unparseable date; the collaborators serving them; and the articles the normalizers make of them.
\<close>

definition entry_openai :: rss_entry where
  "entry_openai =
     \<lparr>rss_link = Some ''https://example.org/openai'', rss_title = Some ''OpenAI ships agents'',
      rss_summary = Some ''<p>A <b>short</b> summary</p> '', rss_description = None,
      rss_published = Some ''day 100'', rss_updated = None\<rparr>"

definition entry_openai_copy :: rss_entry where
  "entry_openai_copy =
     \<lparr>rss_link = Some ''https://example.org/openai'', rss_title = Some ''Agents from OpenAI'',
      rss_summary = None, rss_description = Some ''Another write-up'',
      rss_published = None, rss_updated = Some ''day 100''\<rparr>"

definition entry_cats :: rss_entry where
  "entry_cats =
     \<lparr>rss_link = Some ''https://example.org/cats'', rss_title = None,
      rss_summary = None, rss_description = None,
      rss_published = Some ''not a date'', rss_updated = None\<rparr>"

definition entry_old :: rss_entry where
  "entry_old =
     \<lparr>rss_link = Some ''https://example.org/old'', rss_title = Some ''Anthropic, last week'',
      rss_summary = None, rss_description = None,
      rss_published = Some ''day 90'', rss_updated = None\<rparr>"

definition entry_old_copy :: rss_entry where
  "entry_old_copy = entry_old\<lparr>rss_title := Some ''Anthropic, last week (repost)''\<rparr>"

definition entry_no_link :: rss_entry where
  "entry_no_link = entry_openai\<lparr>rss_link := None\<rparr>"

definition hit_openai :: api_article where
  "hit_openai =
     \<lparr>api_url = Some ''https://example.org/openai'', api_title = Some ''OpenAI (via search)'',
      api_description = None, api_content = Some ''Body'', api_publishedAt = Some ''day 100'',
      api_source_name = Some ''Wire''\<rparr>"

definition hit_anthropic :: api_article where
  "hit_anthropic =
     \<lparr>api_url = Some ''https://example.org/anthropic'', api_title = Some ''Anthropic update'',
      api_description = Some ''News'', api_content = None, api_publishedAt = None,
      api_source_name = None\<rparr>"

text \<open>
  The example collaborators: the first two feeds of \<^verbatim>\<open>config.py\<close> and a stale one answer, the third raises; dates parse when they are one of two known strings; the clock stands at day 100.
\<close>

definition example_env :: env where
  "example_env =
     \<lparr>feedparser_parse =
        (\<lambda>feed_url.
           if feed_url = ''https://venturebeat.com/feed/''
           then Some [entry_openai, entry_old, entry_no_link, entry_cats]
           else if feed_url = ''https://www.technologyreview.com/feed/''
           then Some [entry_openai_copy]
           else if feed_url = ''https://stale.example/rss''
           then Some [entry_old, entry_old_copy]
           else None),
      date_parser_parse =
        (\<lambda>s. if s = ''day 100'' then Some (timedelta_days 100)
             else if s = ''day 90'' then Some (timedelta_days 90)
             else None),
      get_everything =
        (\<lambda>query from_date. Some \<lparr>api_status = ''ok'', api_articles = [hit_openai, hit_anthropic]\<rparr>),
      rss_clock = (\<lambda>source_name. timedelta_days 100),
      api_clock = timedelta_days 100,
      mark_clock = timedelta_days 100,
      cleanup_clock = timedelta_days 100,
      digest_time_str = ''08:00 AM'',
      digest_api = flaky_api,
      alert_api = down_api\<rparr>"

definition article_openai :: article where
  "article_openai =
     \<lparr>url = Some ''https://example.org/openai'', title = Some ''OpenAI ships agents'',
      description = Some ''A short summary'', published = timedelta_days 100,
      source = ''VentureBeat'', matched_keywords = None\<rparr>"

definition article_cats :: article where
  "article_cats =
     \<lparr>url = Some ''https://example.org/cats'', title = Some ''Untitled'',
      description = Some [], published = timedelta_days 100,
      source = ''VentureBeat'', matched_keywords = None\<rparr>"

definition article_anthropic :: article where
  "article_anthropic =
     \<lparr>url = Some ''https://example.org/anthropic'', title = Some ''Anthropic update'',
      description = Some ''News'', published = timedelta_days 100,
      source = ''NewsAPI'', matched_keywords = None\<rparr>"

text \<open>
  Example runs of \<^verbatim>\<open>main\<close>: the example world with a transport that is down, the configuration of \<^verbatim>\<open>config.py\<close> with all three credentials set, the digest such a run prepares and its message.
\<close>

definition failing_env :: env where
  "failing_env = example_env\<lparr>digest_api := down_api\<rparr>"

definition example_config :: config where
  "example_config = repo_config ''key'' ''123:token'' ''42''"

definition example_digest :: "article list" where
  "example_digest =
     [article_openai\<lparr>matched_keywords := Some {''OpenAI''}\<rparr>,
      article_anthropic\<lparr>matched_keywords := Some {''Anthropic''}\<rparr>]"

definition example_message :: string where
  "example_message = format_digest_message ''08:00 AM'' example_digest 5"

text \<open>
  The example storage with a file that cannot be written, and the alert such a run sends.
\<close>

definition readonly_storage :: storage where
  "readonly_storage = example_storage\<lparr>write_error := Some ''Permission denied''\<rparr>"

definition alert_message :: string where
  "alert_message =
     warning_sign @ '' <b>AI News Alerts Error</b>'' @ newline @ newline
     @ ''Critical error: Permission denied''"


section \<open>Storage: loading, statistics and cleanup\<close>

lemma load_sent_articles_eq: "load_sent_articles st = Inr (current_store st)"
  by (simp add: load_sent_articles_def open_and_json_load_def current_store_def
      split: option.splits file_content.splits)

lemma is_sent_eq: "is_sent st u = Inr (DAList.lookup (current_store st) u \<noteq> None)"
  by (simp add: is_sent_def load_sent_articles_eq)

lemma current_store_update_content:
  "current_store (st\<lparr>content := Decodes d\<rparr>) = (if read_error st = None then d else DAList.empty)"
  by (simp add: current_store_def split: option.splits)

lemma current_store_unreadable: "read_error st \<noteq> None \<Longrightarrow> current_store st = DAList.empty"
  by (auto simp: current_store_def)

lemma fold_min_Min: "fold min ds (d::int) = Min (set (d # ds))"
  by (simp only: Min.set_eq_fold)

lemma fold_max_Max: "fold max ds (d::int) = Max (set (d # ds))"
  by (simp only: Max.set_eq_fold)

lemma map_of_filter_unique_keys:
  assumes "distinct (map fst ps)"
  shows "map_of (filter Q ps) key =
           (if \<exists>val. map_of ps key = Some val \<and> Q (key, val) then map_of ps key else None)"
  using assms
proof (induction ps)
  case Nil
  show ?case by simp
next
  case (Cons p ps)
  from Cons.prems have fresh: "map_of ps (fst p) = None"
    by (simp add: map_of_eq_None_iff)
  from Cons.prems have "distinct (map fst ps)"
    by simp
  from Cons.IH [OF this] fresh show ?case
    by (cases p) auto
qed

lemma lookup_filter:
  "DAList.lookup (DAList.filter P d) k =
     (case DAList.lookup d k of None \<Rightarrow> None | Some v \<Rightarrow> if P (k, v) then Some v else None)"
  by transfer (simp add: map_of_filter_unique_keys del: map_of_eq_Some_iff split: option.splits)

lemma length_filter_split:
  "int (length xs) - int (length (filter P xs)) = int (length (filter (\<lambda>x. \<not> P x) xs))"
  using sum_length_filter_compl [of P xs] by simp

lemma cleanup_old_entries_eq:
  "cleanup_old_entries now days st =
     (let cutoff = now - timedelta_days days;
          gone = filter (\<lambda>(u, r). sent_at r \<le> cutoff) (DAList.impl_of (current_store st))
      in if gone = [] then (Inr 0, st)
         else (case write_error st of
                 None \<Rightarrow> (Inr (int (length gone)),
                           st\<lparr>content := Decodes (DAList.filter (\<lambda>(u, r). cutoff < sent_at r) (current_store st))\<rparr>)
               | Some m \<Rightarrow> (Inl (OSError m), st)))"
proof -
  define cutoff where "cutoff = now - timedelta_days days"
  define xs where "xs = DAList.impl_of (current_store st)"
  define P where "P = (\<lambda>(u :: string, r :: sent_record). cutoff < sent_at r)"
  have neg: "(\<lambda>x. \<not> P x) = (\<lambda>(u, r). sent_at r \<le> cutoff)"
    by (auto simp: P_def fun_eq_iff)
  have count: "int (size (current_store st)) - int (size (DAList.filter P (current_store st)))
        = int (length (filter (\<lambda>(u, r). sent_at r \<le> cutoff) xs))"
    by (simp add: size_alist_def DAList.filter.rep_eq xs_def length_filter_split neg)
  show ?thesis
    unfolding cleanup_old_entries_def load_sent_articles_eq Let_def
    by (simp add: count [unfolded P_def cutoff_def xs_def] save_sent_articles_def
        split: option.splits)
qed

lemma example_storage_store: "current_store example_storage = example_store"
  by (simp add: current_store_def example_storage_def)

lemma example_store_impl:
  "DAList.impl_of example_store =
     [(''https://example.org/old'', example_old), (''https://example.org/new'', example_new)]"
  by (simp add: example_store_def DAList.update.rep_eq DAList.empty.rep_eq)

text \<open>
  C9, as amended. \<^verbatim>\<open>get_stats\<close> never raises. On an empty store it returns total 0 (not
  \<^verbatim>\<open>None\<close>) with \<^verbatim>\<open>oldest\<close> and \<^verbatim>\<open>newest\<close> \<^verbatim>\<open>None\<close>; on a non-empty store, total is the
  number of records, \<^verbatim>\<open>oldest\<close> the minimum and \<^verbatim>\<open>newest\<close> the maximum \<^verbatim>\<open>sent_at\<close>.
\<close>

theorem get_stats_spec:
  "get_stats st =
     Inr (if size (current_store st) = 0
          then \<lparr>total = Some 0, oldest = None, newest = None\<rparr>
          else \<lparr>total = Some (size (current_store st)),
                oldest = Some (Min (set (sent_instants (current_store st)))),
                newest = Some (Max (set (sent_instants (current_store st))))\<rparr>)"
proof (cases "sent_instants (current_store st)")
  case Nil
  then have "size (current_store st) = 0"
    by (simp add: sent_instants_def size_alist_def)
  with Nil show ?thesis
    by (simp add: get_stats_def load_sent_articles_eq sent_instants_def)
next
  case (Cons d ds)
  then have "size (current_store st) \<noteq> 0"
    by (auto simp: sent_instants_def size_alist_def)
  moreover have "map (\<lambda>(u, data). sent_at data) (DAList.impl_of (current_store st)) = d # ds"
    using Cons by (simp add: sent_instants_def)
  ultimately show ?thesis
    by (simp add: get_stats_def load_sent_articles_eq Cons fold_min_Min fold_max_Max
        del: set_simps)
qed

theorem get_stats_spec_witness:
  "get_stats example_storage =
     Inr \<lparr>total = Some 2,
          oldest = Some (timedelta_days 100 - timedelta_days 31),
          newest = Some (timedelta_days 100 - timedelta_days 29)\<rparr>"
proof -
  have "sent_instants example_store =
          [timedelta_days 100 - timedelta_days 31, timedelta_days 100 - timedelta_days 29]"
    by (simp add: sent_instants_def example_store_impl example_old_def example_new_def)
  moreover have "size example_store = 2"
    by (simp add: size_alist_def example_store_impl)
  ultimately show ?thesis
    using get_stats_spec [of example_storage]
    by (simp add: example_storage_store timedelta_days_def)
qed

text \<open>
  C9 as stated fails: on an empty store the \<^verbatim>\<open>total\<close> field is 0, not \<^verbatim>\<open>None\<close>.
\<close>

theorem get_stats_empty_total_counterexample:
  "get_stats \<lparr>content = Decodes DAList.empty, read_error = None, write_error = None\<rparr>
     = Inr \<lparr>total = Some 0, oldest = None, newest = None\<rparr>
   \<and> Some (0::nat) \<noteq> None"
  by (simp add: get_stats_def load_sent_articles_def open_and_json_load_def DAList.empty.rep_eq)





section \<open>Storage: the key of a record is its url\<close>

lemma lookup_iff_member: "DAList.lookup d k = Some r \<longleftrightarrow> (k, r) \<in> set (DAList.impl_of d)"
  by transfer simp

lemma keys_match_iff: "keys_match d \<longleftrightarrow> (\<forall>k r. DAList.lookup d k = Some r \<longrightarrow> sent_url r = k)"
  by (auto simp: keys_match_def list_all_iff lookup_iff_member)

lemma keys_match_empty: "keys_match DAList.empty"
  by (simp add: keys_match_def DAList.empty.rep_eq)

lemma keys_match_update: "keys_match d \<Longrightarrow> sent_url r = k \<Longrightarrow> keys_match (DAList.update k r d)"
  by (simp add: keys_match_iff DAList.lookup_update)

lemma keys_match_filter: "keys_match d \<Longrightarrow> keys_match (DAList.filter P d)"
  by (auto simp: keys_match_iff lookup_filter split: option.splits if_splits)

lemma keys_match_mark_one: "keys_match d \<Longrightarrow> keys_match (mark_one now a d)"
  by (simp add: mark_one_def Let_def keys_match_update new_record_def)

lemma keys_match_fold_mark_one: "keys_match d \<Longrightarrow> keys_match (fold (mark_one now) articles d)"
  by (induction articles arbitrary: d) (simp_all add: keys_match_mark_one)

lemma keys_match_current_store: "file_keys_match st \<Longrightarrow> keys_match (current_store st)"
  by (auto simp: file_keys_match_def current_store_def keys_match_empty
      split: option.splits file_content.splits)

lemma file_keys_match_save:
  "keys_match d \<Longrightarrow> file_keys_match st \<Longrightarrow> file_keys_match (snd (save_sent_articles d st))"
  by (simp add: save_sent_articles_def file_keys_match_def split: option.splits)

lemma file_keys_match_apply_op: "file_keys_match st \<Longrightarrow> file_keys_match (apply_op op st)"
proof (cases op)
  case (MarkAsSent now a)
  assume inv: "file_keys_match st"
  have "keys_match (DAList.update u (new_record now a u) (current_store st))" for u
    by (rule keys_match_update [OF keys_match_current_store [OF inv]]) (simp add: new_record_def)
  with inv show ?thesis
    by (simp add: MarkAsSent mark_as_sent_def load_sent_articles_eq Let_def file_keys_match_save)
next
  case (MarkMultipleAsSent now articles)
  assume inv: "file_keys_match st"
  then show ?thesis
    by (simp add: MarkMultipleAsSent mark_multiple_as_sent_def load_sent_articles_eq
        file_keys_match_save keys_match_fold_mark_one keys_match_current_store)
next
  case (CleanupOldEntries now days)
  assume inv: "file_keys_match st"
  have k: "keys_match (DAList.filter P (current_store st))" for P
    by (rule keys_match_filter [OF keys_match_current_store [OF inv]])
  show ?thesis
    using inv k
    by (simp add: CleanupOldEntries cleanup_old_entries_eq Let_def file_keys_match_def
        split: option.splits)
qed

lemma file_keys_match_fold: "file_keys_match st \<Longrightarrow> file_keys_match (fold apply_op ops st)"
  by (induction ops arbitrary: st) (simp_all add: file_keys_match_apply_op)

lemma lookup_mark_one:
  "DAList.lookup (mark_one now a d) u =
     (if has_url u a then Some (new_record now a u) else DAList.lookup d u)"
  by (auto simp: mark_one_def has_url_def Let_def dict_get_def DAList.lookup_update split: option.splits)

lemma find_app:
  "find P (xs @ ys) = (case find P xs of None \<Rightarrow> find P ys | Some x \<Rightarrow> Some x)"
  by (induction xs) simp_all

lemma lookup_fold_mark_one:
  "DAList.lookup (fold (mark_one now) articles d) u =
     (case find (has_url u) (rev articles) of
        None \<Rightarrow> DAList.lookup d u
      | Some a \<Rightarrow> Some (new_record now a u))"
proof (induction articles arbitrary: d)
  case Nil
  show ?case by simp
next
  case (Cons a articles)
  show ?case
    by (simp add: Cons.IH lookup_mark_one find_app split: option.splits)
qed

text \<open>
  C10. Starting from a file whose records carry their keys as \<^verbatim>\<open>url\<close> (an absent, an
  undecodable or a freshly created file is one), every sequence of \<^verbatim>\<open>mark_as_sent\<close>,
  \<^verbatim>\<open>mark_multiple_as_sent\<close> and \<^verbatim>\<open>cleanup_old_entries\<close> calls leaves such a file.
  \<^verbatim>\<open>mark_multiple_as_sent\<close> skips an article whose \<^verbatim>\<open>url\<close> is missing or empty, and the
  dict it saves holds, under each non-empty \<^verbatim>\<open>url\<close> of the list, a record stamped with the
  one \<open>now\<close> read before the loop (with the title of the last such article), and is
  otherwise the loaded dict.
\<close>

theorem stored_url_is_key:
  "(file_keys_match st \<longrightarrow> file_keys_match (fold apply_op ops st))
   \<and> (content st = Missing \<or> content st = Undecodable \<or> content st = Decodes DAList.empty \<longrightarrow>
         file_keys_match (fold apply_op ops st))
   \<and> (\<forall>d a. url a = None \<or> url a = Some [] \<longrightarrow> mark_one now a d = d)
   \<and> (write_error st = None \<longrightarrow>
         mark_multiple_as_sent now articles st =
           (Inr (), st\<lparr>content := Decodes (fold (mark_one now) articles (current_store st))\<rparr>))
   \<and> (\<forall>u. DAList.lookup (fold (mark_one now) articles (current_store st)) u =
          (case find (has_url u) (rev articles) of
             None \<Rightarrow> DAList.lookup (current_store st) u
           | Some a \<Rightarrow> Some \<lparr>sent_at = now, sent_title = dict_get (title a) [], sent_url = u\<rparr>))"
proof -
  have skip: "mark_one now a d = d" if "url a = None \<or> url a = Some []" for a d
    using that by (auto simp: mark_one_def dict_get_def)
  have saved: "mark_multiple_as_sent now articles st =
      (Inr (), st\<lparr>content := Decodes (fold (mark_one now) articles (current_store st))\<rparr>)"
    if "write_error st = None"
    using that
    by (simp add: mark_multiple_as_sent_def load_sent_articles_eq save_sent_articles_def)
  have looks: "DAList.lookup (fold (mark_one now) articles (current_store st)) u =
      (case find (has_url u) (rev articles) of
         None \<Rightarrow> DAList.lookup (current_store st) u
       | Some a \<Rightarrow> Some \<lparr>sent_at = now, sent_title = dict_get (title a) [], sent_url = u\<rparr>)" for u
    by (simp add: lookup_fold_mark_one new_record_def split: option.splits)
  have fresh: "file_keys_match st"
    if "content st = Missing \<or> content st = Undecodable \<or> content st = Decodes DAList.empty"
    using that by (auto simp: file_keys_match_def keys_match_empty)
  from file_keys_match_fold [of st ops] fresh skip saved looks show ?thesis
    by blast
qed

lemma file_keys_match_example: "file_keys_match example_storage"
  by (simp add: file_keys_match_def example_storage_def keys_match_def example_store_impl
      example_old_def example_new_def)

theorem stored_url_is_key_witness:
  "file_keys_match example_storage
   \<and> file_keys_match (fold apply_op example_ops example_storage)
   \<and> write_error example_storage = None
   \<and> DAList.lookup
        (fold (mark_one 7)
           [example_article, example_article\<lparr>url := None\<rparr>, example_article\<lparr>url := Some []\<rparr>]
           (current_store example_storage)) ''https://example.org/a''
       = Some \<lparr>sent_at = 7, sent_title = ''OpenAI ships agents'', sent_url = ''https://example.org/a''\<rparr>
   \<and> DAList.lookup
        (fold (mark_one 7)
           [example_article, example_article\<lparr>url := None\<rparr>, example_article\<lparr>url := Some []\<rparr>]
           (current_store example_storage)) [] = None"
proof -
  let ?arts = "[example_article, example_article\<lparr>url := None\<rparr>, example_article\<lparr>url := Some []\<rparr>]"
  have w: "write_error example_storage = None"
    by (simp add: example_storage_def)
  have f1: "find (has_url ''https://example.org/a'') (rev ?arts) = Some example_article"
    by (simp add: has_url_def example_article_def)
  have f2: "find (has_url []) (rev ?arts) = None"
    by (simp add: has_url_def)
  have e: "DAList.lookup example_store [] = None"
    by (simp add: example_store_def DAList.lookup_update)
  note inst = stored_url_is_key [of example_storage example_ops 7 ?arts]
  from inst file_keys_match_example
  have inv: "file_keys_match (fold apply_op example_ops example_storage)"
    by blast
  from inst have look: "DAList.lookup (fold (mark_one 7) ?arts (current_store example_storage)) u =
      (case find (has_url u) (rev ?arts) of
         None \<Rightarrow> DAList.lookup (current_store example_storage) u
       | Some a \<Rightarrow> Some \<lparr>sent_at = 7, sent_title = dict_get (title a) [], sent_url = u\<rparr>)" for u
    by blast
  have l1: "DAList.lookup (fold (mark_one 7) ?arts (current_store example_storage))
              ''https://example.org/a''
            = Some \<lparr>sent_at = 7, sent_title = ''OpenAI ships agents'',
                    sent_url = ''https://example.org/a''\<rparr>"
    unfolding look f1 by (simp add: example_article_def dict_get_def)
  have l2: "DAList.lookup (fold (mark_one 7) ?arts (current_store example_storage)) [] = None"
    unfolding look f2 by (simp add: e example_storage_store)
  from file_keys_match_example inv w l1 l2 show ?thesis
    by blast
qed



section \<open>Notifier: retries and refusals\<close>

lemma transient_untilD:
  "transient_until api k \<Longrightarrow> i < k \<Longrightarrow> \<exists>e. api i = Raises e \<and> is_TelegramError e"
proof -
  assume t: "transient_until api k" and i: "i < k"
  then have "case api i of Delivered \<Rightarrow> False | Raises e \<Rightarrow> is_TelegramError e"
    by (simp add: transient_until_def list_all_iff)
  then show ?thesis
    by (cases "api i") simp_all
qed

lemma backoff_step: "j < k \<Longrightarrow> backoff message j k = Send message # Sleep (2 ^ j) # backoff message (Suc j) k"
  by (simp add: backoff_def upt_conv_Cons)

lemma backoff_same: "backoff message k k = []"
  by (simp add: backoff_def)

lemma send_attempts_transient:
  assumes "transient_until api k" and "k < n"
  shows "j \<le> k \<Longrightarrow> send_attempts api message (int n) [j ..< n] =
           (case send_attempts api message (int n) [k ..< n] of
              (r, evs) \<Rightarrow> (r, backoff message j k @ evs))"
proof (induction "k - j" arbitrary: j)
  case 0
  then have "j = k" by simp
  then show ?case by (simp add: backoff_same split: prod.splits)
next
  case (Suc d)
  then have jk: "j < k" and d: "d = k - Suc j" and le: "Suc j \<le> k"
    by simp_all
  from transient_untilD [OF assms(1) jk] obtain e where e: "api j = Raises e" "is_TelegramError e"
    by blast
  from jk assms(2) have jn: "j < n" and more: "int j < int n - 1"
    by simp_all
  have "send_attempts api message (int n) [j ..< n] =
        (case send_attempts api message (int n) [Suc j ..< n] of
           (r, evs) \<Rightarrow> (r, Send message # Sleep (2 ^ j) # evs))"
    using jn e more by (simp add: upt_conv_Cons)
  also have "\<dots> = (case send_attempts api message (int n) [k ..< n] of
           (r, evs) \<Rightarrow> (r, backoff message j k @ evs))"
    using Suc.hyps(1) [OF d le] jk by (simp add: backoff_step split: prod.splits)
  finally show ?case .
qed

lemma send_attempts_last:
  assumes "k < n"
  shows "send_attempts api message (int n) [k ..< n] =
           (case api k of
              Delivered \<Rightarrow> (Inr True, [Send message])
            | Raises e \<Rightarrow>
                if is_TelegramError e then
                  (if Suc k < n
                   then (case send_attempts api message (int n) [Suc k ..< n] of
                           (r, evs) \<Rightarrow> (r, Send message # Sleep (2 ^ k) # evs))
                   else (Inr False, [Send message]))
                else if is_Exception e then (Inr False, [Send message])
                else (Inl e, [Send message]))"
proof -
  have "(int k < int n - 1) = (Suc k < n)"
    by auto
  then show ?thesis
    using assms by (simp add: upt_conv_Cons split: send_outcome.splits)
qed

lemma transient_until_mono: "transient_until api k \<Longrightarrow> j \<le> k \<Longrightarrow> transient_until api j"
  by (auto simp: transient_until_def list_all_iff)

lemma send_message_async_configured:
  "configured self \<Longrightarrow>
   send_message_async self api message retry_count =
     send_attempts api message retry_count [0 ..< nat retry_count]"
  by (auto simp: send_message_async_def configured_def)

lemma send_attempts_reach:
  assumes "transient_until api k" and "int k < retry_count"
  shows "send_attempts api message retry_count [0 ..< nat retry_count] =
           (case send_attempts api message retry_count [k ..< nat retry_count] of
              (r, evs) \<Rightarrow> (r, backoff message 0 k @ evs))"
proof -
  from assms(2) obtain n where n: "retry_count = int n"
    by (metis less_le_not_le nat_less_iff nat_0_iff nat_int of_nat_0_le_iff nonneg_int_cases linear order_trans)
  with assms(2) have kn: "k < n"
    by simp
  show ?thesis
    unfolding n nat_int by (rule send_attempts_transient [OF assms(1) kn]) simp
qed

lemma send_attempts_at:
  assumes "int k < retry_count"
  shows "send_attempts api message retry_count [k ..< nat retry_count] =
           (case api k of
              Delivered \<Rightarrow> (Inr True, [Send message])
            | Raises e \<Rightarrow>
                if is_TelegramError e then
                  (if Suc k < nat retry_count
                   then (case send_attempts api message retry_count [Suc k ..< nat retry_count] of
                           (r, evs) \<Rightarrow> (r, Send message # Sleep (2 ^ k) # evs))
                   else (Inr False, [Send message]))
                else if is_Exception e then (Inr False, [Send message])
                else (Inl e, [Send message]))"
proof -
  from assms obtain n where n: "retry_count = int n"
    by (metis less_le_not_le nat_less_iff nat_0_iff nat_int of_nat_0_le_iff nonneg_int_cases linear order_trans)
  with assms have kn: "k < n"
    by simp
  show ?thesis
    unfolding n nat_int by (rule send_attempts_last [OF kn])
qed

text \<open>
  C6. For a configured notifier: while the transport raises \<^verbatim>\<open>TelegramError\<close>, the message is sent again, up to \<open>retry_count\<close> attempts in all, sleeping 1, 2, 4, ... seconds (\<open>2 ^ i\<close> after attempt \<open>i\<close>) between attempts; a delivery at attempt \<open>k\<close> ends the loop with \<open>True\<close>; any other \<^verbatim>\<open>Exception\<close> at attempt \<open>k\<close> ends it at once with \<open>False\<close>, with no sleep and no further send; and when every attempt raises \<^verbatim>\<open>TelegramError\<close> the result is the value \<open>False\<close>, not an exception, after \<open>retry_count\<close> sends and \<open>retry_count - 1\<close> sleeps.
\<close>

theorem delivery_retry_policy:
  assumes "configured self"
  shows
    "(transient_until api k \<and> int k < retry_count \<and> api k = Delivered \<longrightarrow>
        send_message_async self api message retry_count
          = (Inr True, backoff message 0 k @ [Send message]))
     \<and> (transient_until api k \<and> int k < retry_count \<and> api k = Raises e
          \<and> \<not> is_TelegramError e \<and> is_Exception e \<longrightarrow>
        send_message_async self api message retry_count
          = (Inr False, backoff message 0 k @ [Send message]))
     \<and> (transient_until api (nat retry_count) \<and> 0 < retry_count \<longrightarrow>
        send_message_async self api message retry_count
          = (Inr False, backoff message 0 (nat retry_count - 1) @ [Send message]))
     \<and> (retry_count \<le> 0 \<longrightarrow>
        send_message_async self api message retry_count = (Inr False, []))"
proof (intro conjI impI)
  assume a: "transient_until api k \<and> int k < retry_count \<and> api k = Delivered"
  then show "send_message_async self api message retry_count
               = (Inr True, backoff message 0 k @ [Send message])"
    using send_attempts_reach [of api k retry_count message] send_attempts_at [of k retry_count api message]
    by (simp add: send_message_async_configured [OF assms])
next
  assume a: "transient_until api k \<and> int k < retry_count \<and> api k = Raises e
             \<and> \<not> is_TelegramError e \<and> is_Exception e"
  then show "send_message_async self api message retry_count
               = (Inr False, backoff message 0 k @ [Send message])"
    using send_attempts_reach [of api k retry_count message] send_attempts_at [of k retry_count api message]
    by (simp add: send_message_async_configured [OF assms])
next
  assume a: "transient_until api (nat retry_count) \<and> 0 < retry_count"
  define k where "k = nat retry_count - 1"
  from a have sk: "Suc k = nat retry_count"
    by (simp add: k_def)
  then have k: "int k < retry_count"
    by linarith
  from a have t: "transient_until api k"
    by (auto intro: transient_until_mono simp: k_def)
  from a sk have "\<exists>e. api k = Raises e \<and> is_TelegramError e"
    by (auto intro: transient_untilD)
  then obtain e' where e': "api k = Raises e'" "is_TelegramError e'"
    by blast
  show "send_message_async self api message retry_count
          = (Inr False, backoff message 0 (nat retry_count - 1) @ [Send message])"
    using send_attempts_reach [OF t k, of message] send_attempts_at [OF k, of api message] e' sk
    by (simp add: send_message_async_configured [OF assms] k_def)
next
  assume "retry_count \<le> 0"
  then show "send_message_async self api message retry_count = (Inr False, [])"
    by (simp add: send_message_async_configured [OF assms])
qed

theorem delivery_retry_policy_witness:
  "configured example_notifier
   \<and> send_message_async example_notifier flaky_api ''hello'' 3
       = (Inr True, [Send ''hello'', Sleep 1, Send ''hello'', Sleep 2, Send ''hello''])
   \<and> send_message_async example_notifier broken_api ''hello'' 3
       = (Inr False, [Send ''hello'', Sleep 1, Send ''hello''])
   \<and> send_message_async example_notifier down_api ''hello'' 3
       = (Inr False, [Send ''hello'', Sleep 1, Send ''hello'', Sleep 2, Send ''hello''])
   \<and> send_message_async example_notifier down_api ''hello'' 0 = (Inr False, [])"
proof -
  have c: "configured example_notifier"
    by (simp add: configured_def example_notifier_def TelegramNotifier_def)
  have up: "[0 ..< 2] = [0, Suc 0]" "[0 ..< 3] = [0, Suc 0, 2]" "[0 ..< Suc 0] = [0]"
    by (simp_all add: upt_rec)
  have t1: "transient_until flaky_api 2" "transient_until broken_api 1" "transient_until down_api 3"
    by (simp_all add: transient_until_def flaky_api_def broken_api_def down_api_def up)
  have b: "backoff ''hello'' 0 2 = [Send ''hello'', Sleep 1, Send ''hello'', Sleep 2]"
    "backoff ''hello'' 0 1 = [Send ''hello'', Sleep 1]"
    "backoff ''hello'' 0 (Suc 0) = [Send ''hello'', Sleep (Suc 0)]"
    by (simp_all add: backoff_def up)
  from delivery_retry_policy [OF c, where api = flaky_api and k = 2 and retry_count = 3 and message = "''hello''"] t1
  have w1: "send_message_async example_notifier flaky_api ''hello'' 3
       = (Inr True, [Send ''hello'', Sleep 1, Send ''hello'', Sleep 2, Send ''hello''])"
    by (simp add: flaky_api_def b)
  from delivery_retry_policy [OF c, where api = broken_api and k = 1 and retry_count = 3 and message = "''hello''"
      and e = "OtherException ''boom''"] t1
  have w2: "send_message_async example_notifier broken_api ''hello'' 3
       = (Inr False, [Send ''hello'', Sleep 1, Send ''hello''])"
    by (simp add: broken_api_def b)
  from delivery_retry_policy [OF c, where api = down_api and retry_count = 3 and message = "''hello''"] t1
  have w3: "send_message_async example_notifier down_api ''hello'' 3
       = (Inr False, [Send ''hello'', Sleep 1, Send ''hello'', Sleep 2, Send ''hello''])"
    by (simp add: b)
  from delivery_retry_policy [OF c, where api = down_api and retry_count = 0 and message = "''hello''"]
  have w4: "send_message_async example_notifier down_api ''hello'' 0 = (Inr False, [])"
    by simp
  from c w1 w2 w3 w4 show ?thesis
    by blast
qed

lemma send_message_async_unconfigured:
  "\<not> configured self \<Longrightarrow> send_message_async self api message retry_count = (Inr False, [])"
  by (auto simp: send_message_async_def configured_def)

text \<open>
  C7. \<^verbatim>\<open>send_digest\<close> on an empty list returns \<open>False\<close> and touches the transport not at all (no event); a notifier built with an empty token or an empty chat id is unconfigured, and an unconfigured notifier returns \<open>False\<close> from \<^verbatim>\<open>_send_message_async\<close> and from \<^verbatim>\<open>send_digest\<close>, again with no event.
\<close>

theorem no_send_when_empty_or_unconfigured:
  "send_digest self api time_str [] max_articles = (Inr False, [])
   \<and> (\<not> configured self \<longrightarrow>
         send_message_async self api message retry_count = (Inr False, [])
         \<and> send_digest self api time_str articles max_articles = (Inr False, []))
   \<and> (bot_token = [] \<or> chat = [] \<longrightarrow> \<not> configured (TelegramNotifier bot_token chat))"
proof (intro conjI impI)
  show "send_digest self api time_str [] max_articles = (Inr False, [])"
    by (simp add: send_digest_def)
next
  assume "\<not> configured self"
  then show "send_message_async self api message retry_count = (Inr False, [])"
    by (rule send_message_async_unconfigured)
next
  assume "\<not> configured self"
  then show "send_digest self api time_str articles max_articles = (Inr False, [])"
    by (simp add: send_digest_def send_message_async_unconfigured except_Exception_False_def Let_def)
next
  assume "bot_token = [] \<or> chat = []"
  then show "\<not> configured (TelegramNotifier bot_token chat)"
    by (auto simp: configured_def TelegramNotifier_def)
qed

theorem no_send_when_empty_or_unconfigured_witness:
  "send_digest example_notifier flaky_api ''08:00 AM'' [] 5 = (Inr False, [])
   \<and> \<not> configured (TelegramNotifier [] ''42'')
   \<and> send_message_async (TelegramNotifier [] ''42'') flaky_api ''hello'' 3 = (Inr False, [])
   \<and> send_digest (TelegramNotifier [] ''42'') flaky_api ''08:00 AM'' [example_article] 5
       = (Inr False, [])"
proof -
  note inst = no_send_when_empty_or_unconfigured
    [where self = "TelegramNotifier [] ''42''" and bot_token = "[]" and chat = "''42''"
       and api = flaky_api and time_str = "''08:00 AM''" and articles = "[example_article]"
       and max_articles = 5 and message = "''hello''" and retry_count = 3]
  note inst2 = no_send_when_empty_or_unconfigured
    [where self = example_notifier and api = flaky_api and time_str = "''08:00 AM''"
       and max_articles = 5]
  from inst have u: "\<not> configured (TelegramNotifier [] ''42'')"
    by simp
  with inst inst2 show ?thesis
    by blast
qed



section \<open>Orchestrator: ordering and size of the digest\<close>

lemma sort_reverse_mset: "mset (sort_reverse key xs) = mset xs"
  by (simp add: sort_reverse_def)

lemma sort_reverse_descending:
  "sorted_wrt (\<lambda>a b. key a \<ge> key b) (sort_reverse key xs)"
proof -
  have "sorted (map key (sort_key key (rev xs)))"
    by (rule sorted_sort_key)
  then have "sorted_wrt (\<lambda>a b. key a \<le> key b) (sort_key key (rev xs))"
    by (simp add: sorted_map)
  then show ?thesis
    by (simp add: sort_reverse_def sorted_wrt_rev)
qed

lemma sort_reverse_stable:
  "filter (\<lambda>a. key a = t) (sort_reverse key xs) = filter (\<lambda>a. key a = t) xs"
  by (simp add: sort_reverse_def rev_filter [symmetric] sort_key_stable)

text \<open>
  C8. The digest candidates are the new articles sorted by \<^verbatim>\<open>published\<close>, newest first: the sorted list is a permutation of the new articles, descending in \<^verbatim>\<open>published\<close>, and articles with equal \<^verbatim>\<open>published\<close> keep their original relative order. With a non-negative \<^verbatim>\<open>MAX_ARTICLES_IN_DIGEST\<close>, what is passed to delivery is the first so many of them, hence at most so many.
\<close>

theorem digest_newest_first_capped:
  assumes "0 \<le> MAX_ARTICLES_IN_DIGEST cfg"
  shows "mset (sort_reverse published new_articles) = mset new_articles
    \<and> sorted_wrt (\<lambda>a b. published a \<ge> published b) (sort_reverse published new_articles)
    \<and> (\<forall>t. filter (\<lambda>a. published a = t) (sort_reverse published new_articles)
             = filter (\<lambda>a. published a = t) new_articles)
    \<and> articles_to_send cfg new_articles
         = take (nat (MAX_ARTICLES_IN_DIGEST cfg)) (sort_reverse published new_articles)
    \<and> int (length (articles_to_send cfg new_articles)) \<le> MAX_ARTICLES_IN_DIGEST cfg"
proof -
  have cap: "articles_to_send cfg new_articles
         = take (nat (MAX_ARTICLES_IN_DIGEST cfg)) (sort_reverse published new_articles)"
    using assms by (simp add: articles_to_send_def slice_to_def)
  have "int (length (articles_to_send cfg new_articles)) \<le> MAX_ARTICLES_IN_DIGEST cfg"
    using assms unfolding cap by simp
  with cap show ?thesis
    by (simp add: sort_reverse_mset sort_reverse_descending sort_reverse_stable)
qed

theorem digest_newest_first_capped_witness:
  "0 \<le> MAX_ARTICLES_IN_DIGEST (repo_config [] [] [])
   \<and> map published (sort_reverse published example_batch)
       = [timedelta_days 100 - 1, timedelta_days 100 - 2, timedelta_days 100 - 3]
   \<and> articles_to_send (repo_config [] [] []) example_batch = sort_reverse published example_batch
   \<and> int (length (articles_to_send (repo_config [] [] []) example_batch)) \<le> 5"
proof -
  have m: "MAX_ARTICLES_IN_DIGEST (repo_config [] [] []) = 5"
    by (simp add: repo_config_def)
  have s: "map published (sort_reverse published example_batch)
       = [timedelta_days 100 - 1, timedelta_days 100 - 2, timedelta_days 100 - 3]"
    by (simp add: sort_reverse_def example_batch_def example_article_def timedelta_days_def)
  then have l: "length (sort_reverse published example_batch) = 3"
    by (metis length_map length_Cons list.size(3) numeral_3_eq_3)
  from digest_newest_first_capped [of "repo_config [] [] []" example_batch] m s l
  show ?thesis
    by simp
qed



section \<open>Keyword matcher: patterns and whole words\<close>












lemma example_searches:
  "pattern_search ''AI'' ''AI agents are here''"
  "\<not> pattern_search ''AI'' ''MAIN event''"
  "\<not> pattern_search ''agent SDK'' ''The agent works''"
  "pattern_search ''agent SDK'' ''New Agent sdk released''"
  by code_simp+



text \<open>
  The keywords of \<^verbatim>\<open>config.py\<close> satisfy the condition of C4 as amended.
\<close>

lemma repo_keywords_edged: "list_all word_edged (KEYWORDS (repo_config newsapi_key bot_token chat))"
  by (simp add: repo_config_def word_edged_def is_word_char_def)



section \<open>Aggregator: deduplication by locator\<close>

lemma dedup_loop_first_seen:
  "\<forall>a \<in> set xs. url a \<noteq> None \<Longrightarrow>
   dedup_loop xs seen acc = Inr (acc @ first_seen (Some ` seen) xs)"
proof (induction xs arbitrary: seen acc)
  case Nil
  show ?case by simp
next
  case (Cons a xs)
  from Cons.prems obtain u where u: "url a = Some u"
    by auto
  from Cons.prems have rest: "\<forall>a \<in> set xs. url a \<noteq> None"
    by simp
  show ?case
    using Cons.IH [OF rest] u by (auto simp: getitem_def)
qed

lemma first_seen_subseq: "subseq (first_seen seen xs) xs"
  by (induction xs arbitrary: seen) auto

lemma first_seen_member: "a \<in> set (first_seen seen xs) \<Longrightarrow> a \<in> set xs"
  by (induction xs arbitrary: seen) (auto split: if_splits)

lemma first_seen_fresh: "a \<in> set (first_seen seen xs) \<Longrightarrow> url a \<notin> seen"
  by (induction xs arbitrary: seen) (auto split: if_splits)

lemma first_seen_distinct: "distinct (map url (first_seen seen xs))"
  by (induction xs arbitrary: seen) (auto dest: first_seen_fresh)

lemma first_seen_find:
  "find (\<lambda>a. url a = k) (first_seen seen xs) = (if k \<in> seen then None else find (\<lambda>a. url a = k) xs)"
  by (induction xs arbitrary: seen) auto

lemma distinct_count:
  "distinct (map f xs) \<Longrightarrow> length (filter (\<lambda>a. f a = k) xs) = (if k \<in> f ` set xs then 1 else 0)"
  by (induction xs) auto

lemma find_None_iff_image: "find (\<lambda>a. f a = k) xs = None \<longleftrightarrow> k \<notin> f ` set xs"
  by (induction xs) auto

lemma normalize_entry_locator: "normalize_entry w now entry name = Some a \<Longrightarrow> has_locator a"
  by (auto simp: normalize_entry_def has_locator_def Let_def split: if_splits)

lemma normalize_article_locator: "normalize_article w now d = Some a \<Longrightarrow> has_locator a"
  by (auto simp: normalize_article_def has_locator_def Let_def split: if_splits)

lemma recent_entries_eq:
  "recent_entries w now cutoff name entries =
     filter (\<lambda>a. cutoff \<le> published a)
       (List.map_filter (\<lambda>entry. normalize_entry w now entry name) entries)"
  by (induction entries) (simp_all add: List.map_filter_simps split: option.splits)

lemma fetch_feed_eq:
  "fetch_feed w feed_url name hours_ago =
     (case feedparser_parse w feed_url of
        None \<Rightarrow> []
      | Some entries \<Rightarrow>
          filter (\<lambda>a. rss_clock w name - timedelta_hours hours_ago \<le> published a)
            (List.map_filter (\<lambda>entry. normalize_entry w (rss_clock w name) entry name) entries))"
  by (simp add: fetch_feed_def recent_entries_eq Let_def split: option.splits)

lemma map_filter_member: "a \<in> set (List.map_filter f xs) \<Longrightarrow> \<exists>x \<in> set xs. f x = Some a"
  by (auto simp: List.map_filter_def)

lemma fetch_feed_locator: "a \<in> set (fetch_feed w feed_url name hours_ago) \<Longrightarrow> has_locator a"
  by (auto simp: fetch_feed_eq split: option.splits dest!: map_filter_member
      intro: normalize_entry_locator)

lemma fetch_articles_locator: "a \<in> set (fetch_articles w key kws hours_ago) \<Longrightarrow> has_locator a"
  by (auto simp: fetch_articles_def Let_def split: option.splits if_splits dest!: map_filter_member
      intro: normalize_article_locator)

lemma collect_all_locator:
  "a \<in> set (collect_all w feeds key kws hours_ago) \<Longrightarrow> has_locator a"
  by (auto simp: collect_all_def dest: fetch_feed_locator fetch_articles_locator)

lemma has_locator_url: "has_locator a \<Longrightarrow> url a \<noteq> None"
  by (auto simp: has_locator_def split: option.splits)

text \<open>
  C1, as amended. \<^verbatim>\<open>fetch_all_articles\<close> never raises. Its output is a subsequence of the collected list (the articles of each feed in dict order of the feeds, then those of the search), holds no two articles with one locator, and for every locator holds exactly the first collected article with it: one article when some collected article has the locator, none otherwise. A feed contributes only entries with a non-empty link whose \<^verbatim>\<open>published\<close> is not before the cutoff, so a locator all of whose raw entries are stale or invalid has no article in the output.
\<close>

theorem fetch_all_articles_first_seen:
  "\<exists>out. fetch_all_articles w feeds key kws hours_ago = Inr out
     \<and> subseq out (collect_all w feeds key kws hours_ago)
     \<and> distinct (map url out)
     \<and> list_all has_locator out
     \<and> (\<forall>u. find (\<lambda>a. url a = Some u) out
              = find (\<lambda>a. url a = Some u) (collect_all w feeds key kws hours_ago))
     \<and> (\<forall>u. length (filter (\<lambda>a. url a = Some u) out)
              = (if Some u \<in> url ` set (collect_all w feeds key kws hours_ago) then 1 else 0))
     \<and> collect_all w feeds key kws hours_ago
         = concat (map (\<lambda>(name, feed_url). fetch_feed w feed_url name hours_ago) feeds)
           @ fetch_articles w key kws hours_ago
     \<and> (\<forall>name feed_url. fetch_feed w feed_url name hours_ago =
           (case feedparser_parse w feed_url of
              None \<Rightarrow> []
            | Some entries \<Rightarrow>
                filter (\<lambda>a. rss_clock w name - timedelta_hours hours_ago \<le> published a)
                  (List.map_filter (\<lambda>entry. normalize_entry w (rss_clock w name) entry name)
                     entries)))"
proof -
  let ?all = "collect_all w feeds key kws hours_ago"
  let ?out = "first_seen {} ?all"
  have "\<forall>a \<in> set ?all. url a \<noteq> None"
    by (blast dest: collect_all_locator has_locator_url)
  then have res: "fetch_all_articles w feeds key kws hours_ago = Inr ?out"
    using dedup_loop_first_seen [of ?all "{}" "[]"] by (simp add: fetch_all_articles_def)
  have sub: "subseq ?out ?all"
    by (rule first_seen_subseq)
  have dis: "distinct (map url ?out)"
    by (rule first_seen_distinct)
  have "set ?out \<subseteq> set ?all"
    by (auto dest: first_seen_member)
  then have loc: "list_all has_locator ?out"
    by (auto simp: list_all_iff dest: collect_all_locator)
  have fnd: "find (\<lambda>a. url a = Some u) ?out = find (\<lambda>a. url a = Some u) ?all" for u
    by (simp add: first_seen_find)
  have cnt: "length (filter (\<lambda>a. url a = Some u) ?out)
              = (if Some u \<in> url ` set ?all then 1 else 0)" for u
  proof -
    have "(Some u \<in> url ` set ?out) = (Some u \<in> url ` set ?all)"
      using fnd [of u] find_None_iff_image [of url "Some u" ?out]
        find_None_iff_image [of url "Some u" ?all] by simp
    then show ?thesis
      using distinct_count [OF dis, of "Some u"] by simp
  qed
  have ord: "?all = concat (map (\<lambda>(name, feed_url). fetch_feed w feed_url name hours_ago) feeds)
           @ fetch_articles w key kws hours_ago"
    by (simp add: collect_all_def)
  from res sub dis loc fnd cnt ord fetch_feed_eq [of w _ _ hours_ago] show ?thesis
    by blast
qed

lemma example_fetch:
  "fetch_all_articles example_env (RSS_FEEDS (repo_config ''key'' [] []))
     ''key'' (KEYWORDS (repo_config ''key'' [] [])) 8
   = Inr [article_openai, article_cats, article_anthropic]"
  by code_simp

lemma example_collect:
  "collect_all example_env (RSS_FEEDS (repo_config ''key'' [] []))
     ''key'' (KEYWORDS (repo_config ''key'' [] [])) 8
   = [article_openai, article_cats,
      article_openai\<lparr>title := Some ''Agents from OpenAI'', description := Some ''Another write-up'',
                      source := ''MIT Tech Review''\<rparr>,
      article_openai\<lparr>title := Some ''OpenAI (via search)'', description := Some ''Body'',
                      source := ''Wire''\<rparr>,
      article_anthropic]"
  by code_simp

text \<open>
  C1 as stated fails: a feed returns two entries with one link, both published ten days before a clock with an 8-hour window; the output holds no article with that locator, not one.
\<close>

theorem fetch_all_articles_stale_counterexample:
  "feedparser_parse example_env ''https://stale.example/rss'' = Some [entry_old, entry_old_copy]
   \<and> rss_link entry_old = Some ''https://example.org/old''
   \<and> rss_link entry_old_copy = Some ''https://example.org/old''
   \<and> fetch_all_articles example_env [(''Stale'', ''https://stale.example/rss'')] []
         [''Anthropic''] 8 = Inr []"
  by code_simp

theorem fetch_all_articles_first_seen_witness:
  "fetch_all_articles example_env (RSS_FEEDS (repo_config ''key'' [] []))
     ''key'' (KEYWORDS (repo_config ''key'' [] [])) 8
     = Inr [article_openai, article_cats, article_anthropic]
   \<and> subseq [article_openai, article_cats, article_anthropic]
        (collect_all example_env (RSS_FEEDS (repo_config ''key'' [] []))
           ''key'' (KEYWORDS (repo_config ''key'' [] [])) 8)
   \<and> find (\<lambda>a. url a = Some ''https://example.org/openai'')
        (collect_all example_env (RSS_FEEDS (repo_config ''key'' [] []))
           ''key'' (KEYWORDS (repo_config ''key'' [] [])) 8) = Some article_openai
   \<and> length (filter (\<lambda>a. url a = Some ''https://example.org/openai'')
        [article_openai, article_cats, article_anthropic]) = 1
   \<and> length (filter (\<lambda>a. url a = Some ''https://example.org/old'')
        [article_openai, article_cats, article_anthropic]) = 0"
proof -
  let ?all = "collect_all example_env (RSS_FEEDS (repo_config ''key'' [] []))
           ''key'' (KEYWORDS (repo_config ''key'' [] [])) 8"
  let ?out = "[article_openai, article_cats, article_anthropic]"
  from fetch_all_articles_first_seen [of example_env "RSS_FEEDS (repo_config ''key'' [] [])"
      "''key''" "KEYWORDS (repo_config ''key'' [] [])" 8]
  have sub: "subseq ?out ?all"
    and fnd: "\<And>u. find (\<lambda>a. url a = Some u) ?out = find (\<lambda>a. url a = Some u) ?all"
    and cnt: "\<And>u. length (filter (\<lambda>a. url a = Some u) ?out)
                 = (if Some u \<in> url ` set ?all then 1 else 0)"
    unfolding example_fetch by auto
  have f: "find (\<lambda>a. url a = Some ''https://example.org/openai'') ?all = Some article_openai"
    unfolding fnd [symmetric] by (simp add: article_openai_def)
  have c1: "length (filter (\<lambda>a. url a = Some ''https://example.org/openai'') ?out) = 1"
    unfolding cnt example_collect by (simp add: article_openai_def)
  have c0: "length (filter (\<lambda>a. url a = Some ''https://example.org/old'') ?out) = 0"
    unfolding cnt example_collect
    by (simp add: article_openai_def article_cats_def article_anthropic_def)
  from example_fetch sub f c1 c0 show ?thesis
    by blast
qed



section \<open>Orchestrator: what a run commits\<close>

lemma ensure_storage_exists_keeps:
  assumes "ensure_storage_exists st = (r, st')"
  shows "current_store st' = current_store st"
    and "read_error st' = read_error st"
    and "write_error st' = write_error st"
    and "r \<noteq> Inr () \<Longrightarrow> st' = st"
    and "content st' \<noteq> Missing \<or> r \<noteq> Inr ()"
  using assms
  by (auto simp: ensure_storage_exists_def save_sent_articles_def current_store_def
      split: if_splits option.splits file_content.splits)

lemma filter_keeps_all:
  "filter (\<lambda>(u, r). sent_at r \<le> c) (DAList.impl_of S) = [] \<Longrightarrow>
   DAList.filter (\<lambda>(u, r). c < sent_at r) S = S"
proof -
  assume e: "filter (\<lambda>(u, r). sent_at r \<le> c) (DAList.impl_of S) = []"
  have "filter (\<lambda>(u, r). c < sent_at r) (DAList.impl_of S) = DAList.impl_of S"
    using e by (auto simp: filter_empty_conv filter_id_conv)
  then show ?thesis
    by (simp add: alist_eq_iff DAList.filter.rep_eq)
qed

lemma cleanup_current_store:
  "current_store (snd (cleanup_old_entries now days st)) =
     (if write_error st = None
      then DAList.filter (\<lambda>(u, r). now - timedelta_days days < sent_at r) (current_store st)
      else current_store st)"
proof -
  let ?c = "now - timedelta_days days"
  let ?gone = "filter (\<lambda>(u, r). sent_at r \<le> ?c) (DAList.impl_of (current_store st))"
  show ?thesis
  proof (cases "?gone = []")
    case True
    then have "snd (cleanup_old_entries now days st) = st"
      by (simp add: cleanup_old_entries_eq Let_def)
    then show ?thesis
      using filter_keeps_all [OF True] by simp
  next
    case False
    have r: "read_error st = None"
    proof (rule ccontr)
      assume "read_error st \<noteq> None"
      then have "current_store st = DAList.empty"
        by (rule current_store_unreadable)
      with False show False
        by (simp add: DAList.empty.rep_eq)
    qed
    show ?thesis
    proof (cases "write_error st")
      case None
      with False have "snd (cleanup_old_entries now days st) =
          st\<lparr>content := Decodes (DAList.filter (\<lambda>(u, r). ?c < sent_at r) (current_store st))\<rparr>"
        by (simp add: cleanup_old_entries_eq Let_def)
      then show ?thesis
        using None r by (simp add: current_store_update_content)
    next
      case (Some m)
      with False have "snd (cleanup_old_entries now days st) = st"
        by (simp add: cleanup_old_entries_eq Let_def)
      then show ?thesis
        using Some by simp
    qed
  qed
qed

lemma commit_and_cleanup_failed:
  "current_store (snd (commit_and_cleanup w cfg False batch st)) =
     (if write_error st = None
      then DAList.filter (\<lambda>(u, r). cleanup_clock w - timedelta_days (CLEANUP_DAYS cfg) < sent_at r)
             (current_store st)
      else current_store st)"
proof -
  have "snd (commit_and_cleanup w cfg False batch st)
          = snd (cleanup_old_entries (cleanup_clock w) (CLEANUP_DAYS cfg) st)"
    by (simp add: commit_and_cleanup_def split: prod.splits sum.splits)
  then show ?thesis
    by (simp only: cleanup_current_store)
qed

lemma deliver_cases:
  assumes "deliver w cfg new_articles st = (r, st', evs, d)"
  shows "d = None \<Longrightarrow> st' = st"
    and "d = Some success \<Longrightarrow>
         (r, st') = commit_and_cleanup w cfg success (articles_to_send cfg new_articles) st"
  using assms
  by (auto simp: deliver_def Let_def split: sum.splits prod.splits)

lemma main_body_cases:
  assumes "main_body w cfg st0 = (r, st', evs, d)"
  obtains (early) "d = None" "st' = fst (snd (main_body w cfg st0))"
      "current_store st' = current_store st0" "write_error st' = write_error st0"
      "read_error st' = read_error st0"
  | (reached) st1 matched new_articles where
      "ensure_storage_exists st0 = (Inr (), st1)"
      "unsent_articles st1 matched = Inr new_articles"
      "deliver w cfg new_articles st1 = (r, st', evs, d)"
proof -
  obtain r0 st1 where e: "ensure_storage_exists st0 = (r0, st1)"
    by (cases "ensure_storage_exists st0")
  note keep = ensure_storage_exists_keeps [OF e]
  show thesis
  proof (cases "\<exists>new. r0 = Inr () \<and> new \<noteq> [] \<and>
      unsent_articles st1 (filter_articles (KEYWORDS cfg)
        (case fetch_all_articles w (RSS_FEEDS cfg) (NEWSAPI_KEY cfg) (KEYWORDS cfg)
                (FETCH_WINDOW_HOURS cfg) of Inr xs \<Rightarrow> xs | Inl e \<Rightarrow> [])) = Inr new
      \<and> main_body w cfg st0 = deliver w cfg new st1")
    case True
    then obtain new where n: "r0 = Inr ()"
      "unsent_articles st1 (filter_articles (KEYWORDS cfg)
        (case fetch_all_articles w (RSS_FEEDS cfg) (NEWSAPI_KEY cfg) (KEYWORDS cfg)
                (FETCH_WINDOW_HOURS cfg) of Inr xs \<Rightarrow> xs | Inl e \<Rightarrow> [])) = Inr new"
      "main_body w cfg st0 = deliver w cfg new st1"
      by blast
    show thesis
      by (rule reached [OF _ n(2)]) (use e n assms in simp_all)
  next
    case False
    have "d = None \<and> st' = st1"
      using assms e False
      by (auto simp: main_body_def get_stats_def load_sent_articles_eq Let_def
          split: sum.splits prod.splits if_splits list.splits unit.splits)
    then show thesis
      using keep assms by (intro early) simp_all
  qed
qed

lemma is_sent_total: "\<exists>b. is_sent st x = Inr b"
  by (simp add: is_sent_eq)

lemma main_fields:
  assumes "main_body w cfg st0 = (r, st', evs, d)"
  shows "final (main w cfg st0) = st'"
    and "delivered (main w cfg st0) = d"
    and "outcome (main w cfg st0) =
           (case r of Inr u \<Rightarrow> Returned | Inl e \<Rightarrow> if is_Exception e then SysExit 1 else SysExit 0)"
  using assms by (simp_all add: main_def Let_def split: sum.splits)

lemma main_store:
  "(delivered (main w cfg st0) = None \<longrightarrow>
      current_store (final (main w cfg st0)) = current_store st0)
   \<and> (delivered (main w cfg st0) = Some False \<longrightarrow>
      current_store (final (main w cfg st0)) =
        (if write_error st0 = None
         then DAList.filter
                (\<lambda>(u, r). cleanup_clock w - timedelta_days (CLEANUP_DAYS cfg) < sent_at r)
                (current_store st0)
         else current_store st0))"
proof -
  obtain r st' evs d where b: "main_body w cfg st0 = (r, st', evs, d)"
    by (cases "main_body w cfg st0") auto
  note f = main_fields [OF b]
  from b show ?thesis
  proof (cases rule: main_body_cases)
    case early
    then show ?thesis
      by (simp add: f)
  next
    case (reached st1 matched new_articles)
    note keep = ensure_storage_exists_keeps [OF reached(1)]
    have none: "d = None \<Longrightarrow> current_store st' = current_store st0"
      using deliver_cases(1) [OF reached(3)] keep(1) by simp
    have failed: "current_store st' =
        (if write_error st0 = None
         then DAList.filter
                (\<lambda>(u, r). cleanup_clock w - timedelta_days (CLEANUP_DAYS cfg) < sent_at r)
                (current_store st0)
         else current_store st0)" if "d = Some False"
    proof -
      from deliver_cases(2) [OF reached(3) that]
      have "st' = snd (commit_and_cleanup w cfg False (articles_to_send cfg new_articles) st1)"
        by (metis snd_conv)
      then show ?thesis
        by (simp only: commit_and_cleanup_failed keep)
    qed
    from none failed show ?thesis
      by (simp add: f)
  qed
qed

text \<open>
  C2, as amended. In a run of \<^verbatim>\<open>main\<close> whose delivery did not succeed (it failed, or the run ended before it), nothing is added to the tracker: every locator for which \<^verbatim>\<open>is_sent\<close> was false before the run, the articles of the attempted batch among them, is still unsent after it; and every record not older than the retention cutoff is still there. A run that ends before the delivery leaves \<^verbatim>\<open>is_sent\<close> as it was for every locator. After a failed delivery the cleanup still runs, so \<^verbatim>\<open>is_sent\<close> can turn from true to false for a record at or beyond the cutoff. \<^verbatim>\<open>is_sent\<close> itself never raises.
\<close>

theorem failed_delivery_commits_nothing:
  "(delivered (main w cfg st0) \<noteq> Some True \<longrightarrow>
      (\<forall>x. is_sent st0 x = Inr False \<longrightarrow> is_sent (final (main w cfg st0)) x = Inr False)
      \<and> (\<forall>x r. DAList.lookup (current_store st0) x = Some r
                 \<and> cleanup_clock w - timedelta_days (CLEANUP_DAYS cfg) < sent_at r \<longrightarrow>
               is_sent (final (main w cfg st0)) x = Inr True))
   \<and> (delivered (main w cfg st0) = None \<longrightarrow>
        (\<forall>x. is_sent (final (main w cfg st0)) x = is_sent st0 x))
   \<and> (\<forall>x. \<exists>b. is_sent st0 x = Inr b)"
proof -
  let ?r = "main w cfg st0"
  let ?P = "\<lambda>(u :: string, r). cleanup_clock w - timedelta_days (CLEANUP_DAYS cfg) < sent_at r"
  have same: "is_sent (final ?r) x = is_sent st0 x" if "delivered ?r = None" for x
    using main_store [of w cfg st0] that by (simp add: is_sent_eq)
  have cases: "current_store (final ?r) = current_store st0
      \<or> current_store (final ?r) = DAList.filter ?P (current_store st0)"
    if "delivered ?r \<noteq> Some True"
  proof (cases "delivered ?r")
    case None
    then show ?thesis
      using main_store [of w cfg st0] by simp
  next
    case (Some b)
    with that have "delivered ?r = Some False"
      by simp
    then show ?thesis
      using main_store [of w cfg st0] by (simp split: if_splits)
  qed
  have stays: "is_sent (final ?r) x = Inr False"
    if "delivered ?r \<noteq> Some True" and "is_sent st0 x = Inr False" for x
    using cases [OF that(1)] that(2) by (auto simp: is_sent_eq lookup_filter)
  have fresh: "is_sent (final ?r) x = Inr True"
    if "delivered ?r \<noteq> Some True" and "DAList.lookup (current_store st0) x = Some r"
      and "cleanup_clock w - timedelta_days (CLEANUP_DAYS cfg) < sent_at r" for x r
    using cases [OF that(1)] that(2,3) by (auto simp: is_sent_eq lookup_filter)
  from same stays fresh is_sent_total show ?thesis
    by blast
qed

lemma main_save_failure:
  assumes "write_error st0 = Some m" and "delivered (main w cfg st0) = Some True"
  shows "outcome (main w cfg st0) = SysExit 1" and "final (main w cfg st0) = st0"
proof -
  obtain r st' evs d where b: "main_body w cfg st0 = (r, st', evs, d)"
    by (cases "main_body w cfg st0") auto
  note f = main_fields [OF b]
  from assms(2) have d: "d = Some True"
    by (simp add: f)
  from b have "r = Inl (OSError m) \<and> st' = st0"
  proof (cases rule: main_body_cases)
    case early
    with d show ?thesis by simp
  next
    case (reached st1 matched new_articles)
    note keep = ensure_storage_exists_keeps [OF reached(1)]
    have st1: "st1 = st0"
      using reached(1) assms(1)
      by (auto simp: ensure_storage_exists_def save_sent_articles_def split: if_splits)
    from deliver_cases(2) [OF reached(3) d]
    have "(r, st') = commit_and_cleanup w cfg True (articles_to_send cfg new_articles) st0"
      by (simp add: st1)
    then show ?thesis
      using assms(1)
      by (simp add: commit_and_cleanup_def mark_multiple_as_sent_def load_sent_articles_eq
          save_sent_articles_def)
  qed
  then show "outcome (main w cfg st0) = SysExit 1" and "final (main w cfg st0) = st0"
    by (simp_all add: f)
qed

text \<open>
  C5. \<^verbatim>\<open>load_sent_articles\<close> never raises, and whenever opening or decoding the file raises it returns the empty dict. When the file cannot be written, \<^verbatim>\<open>save_sent_articles\<close> raises the error, and so do \<^verbatim>\<open>mark_multiple_as_sent\<close> and \<^verbatim>\<open>mark_as_sent\<close> (for an article with a locator), leaving the file as it was; a run of \<^verbatim>\<open>main\<close> whose delivery succeeded then ends with exit status 1 and an unchanged file, not as a completed run.
\<close>

theorem load_swallows_save_raises:
  "(\<exists>d. load_sent_articles st = Inr d)
   \<and> (\<forall>e. open_and_json_load st = Inl e \<longrightarrow> load_sent_articles st = Inr DAList.empty)
   \<and> (write_error st = Some m \<longrightarrow>
         save_sent_articles data st = (Inl (OSError m), st)
         \<and> mark_multiple_as_sent now articles st = (Inl (OSError m), st)
         \<and> (dict_get (url a) [] \<noteq> [] \<longrightarrow> mark_as_sent now a st = (Inl (OSError m), st))
         \<and> (delivered (main w cfg st) = Some True \<longrightarrow>
               outcome (main w cfg st) = SysExit 1 \<and> final (main w cfg st) = st))"
proof (intro conjI impI allI)
  show "\<exists>d. load_sent_articles st = Inr d"
    by (simp add: load_sent_articles_eq)
next
  fix e
  assume "open_and_json_load st = Inl e"
  then show "load_sent_articles st = Inr DAList.empty"
    by (auto simp: load_sent_articles_def open_and_json_load_def
        split: option.splits file_content.splits)
next
  assume w: "write_error st = Some m"
  show "save_sent_articles data st = (Inl (OSError m), st)"
    using w by (simp add: save_sent_articles_def)
  show "mark_multiple_as_sent now articles st = (Inl (OSError m), st)"
    using w by (simp add: mark_multiple_as_sent_def load_sent_articles_eq save_sent_articles_def)
  show "mark_as_sent now a st = (Inl (OSError m), st)" if "dict_get (url a) [] \<noteq> []"
    using w that by (simp add: mark_as_sent_def load_sent_articles_eq save_sent_articles_def Let_def)
  show "outcome (main w cfg st) = SysExit 1" if "delivered (main w cfg st) = Some True"
    using main_save_failure(1) [OF w that] .
  show "final (main w cfg st) = st" if "delivered (main w cfg st) = Some True"
    using main_save_failure(2) [OF w that] .
qed



section \<open>Orchestrator: two example runs\<close>

lemma failing_run:
  "main failing_env example_config example_storage =
     \<lparr>outcome = Returned,
      final = example_storage
        \<lparr>content := Decodes (DAList.update ''https://example.org/new'' example_new DAList.empty)\<rparr>,
      events = [Send example_message, Sleep 1, Send example_message, Sleep 2, Send example_message],
      delivered = Some False\<rparr>"
  by code_simp

lemma readonly_run:
  "main example_env example_config readonly_storage =
     \<lparr>outcome = SysExit 1,
      final = readonly_storage,
      events = [Send example_message, Sleep 1, Send example_message, Sleep 2, Send example_message,
                Send alert_message],
      delivered = Some True\<rparr>"
  by code_simp

theorem load_swallows_save_raises_witness:
  "load_sent_articles \<lparr>content = Undecodable, read_error = None, write_error = None\<rparr>
     = Inr DAList.empty
   \<and> write_error readonly_storage = Some ''Permission denied''
   \<and> save_sent_articles DAList.empty readonly_storage
       = (Inl (OSError ''Permission denied''), readonly_storage)
   \<and> mark_multiple_as_sent 7 [example_article] readonly_storage
       = (Inl (OSError ''Permission denied''), readonly_storage)
   \<and> delivered (main example_env example_config readonly_storage) = Some True
   \<and> outcome (main example_env example_config readonly_storage) = SysExit 1
   \<and> final (main example_env example_config readonly_storage) = readonly_storage"
proof -
  have o: "open_and_json_load \<lparr>content = Undecodable, read_error = None, write_error = None\<rparr>
             = Inl (JSONDecodeError ''Expecting value'')"
    by (simp add: open_and_json_load_def)
  have w: "write_error readonly_storage = Some ''Permission denied''"
    by (simp add: readonly_storage_def)
  have d: "delivered (main example_env example_config readonly_storage) = Some True"
    by (simp add: readonly_run)
  note a = load_swallows_save_raises
    [where st = "\<lparr>content = Undecodable, read_error = None, write_error = None\<rparr>"]
  note b = load_swallows_save_raises
    [where st = readonly_storage and m = "''Permission denied''" and data = DAList.empty
       and now = 7 and articles = "[example_article]" and w = example_env
       and cfg = example_config]
  from a o have l: "load_sent_articles \<lparr>content = Undecodable, read_error = None, write_error = None\<rparr>
     = Inr DAList.empty"
    by blast
  from b w d l show ?thesis
    by blast
qed

theorem failed_delivery_commits_nothing_witness:
  "delivered (main failing_env example_config example_storage) \<noteq> Some True
   \<and> is_sent example_storage ''https://example.org/openai'' = Inr False
   \<and> is_sent (final (main failing_env example_config example_storage))
        ''https://example.org/openai'' = Inr False
   \<and> DAList.lookup (current_store example_storage) ''https://example.org/new'' = Some example_new
   \<and> cleanup_clock failing_env - timedelta_days (CLEANUP_DAYS example_config) < sent_at example_new
   \<and> is_sent (final (main failing_env example_config example_storage))
        ''https://example.org/new'' = Inr True"
proof -
  have d: "delivered (main failing_env example_config example_storage) \<noteq> Some True"
    by (simp add: failing_run)
  have u: "is_sent example_storage ''https://example.org/openai'' = Inr False"
    by (simp add: is_sent_eq example_storage_store example_store_def DAList.lookup_update)
  have n: "DAList.lookup (current_store example_storage) ''https://example.org/new''
             = Some example_new"
    by (simp add: example_storage_store example_store_def DAList.lookup_update)
  have c: "cleanup_clock failing_env - timedelta_days (CLEANUP_DAYS example_config)
             < sent_at example_new"
    by (simp add: failing_env_def example_env_def example_config_def repo_config_def
        example_new_def timedelta_days_def)
  from failed_delivery_commits_nothing [of failing_env example_config example_storage] d u n c
  show ?thesis
    by blast
qed

text \<open>
  C2 as stated fails: in a run whose delivery fails (the transport is down at all three attempts), nothing is committed, yet \<^verbatim>\<open>is_sent\<close> of a record sent 31 days before turns from true to false, since the cleanup runs after the failed delivery.
\<close>

theorem failed_delivery_prunes_counterexample:
  "delivered (main failing_env example_config example_storage) = Some False
   \<and> is_sent example_storage ''https://example.org/old'' = Inr True
   \<and> is_sent (final (main failing_env example_config example_storage))
        ''https://example.org/old'' = Inr False"
proof -
  have before: "is_sent example_storage ''https://example.org/old'' = Inr True"
    by (simp add: is_sent_eq example_storage_store example_store_def DAList.lookup_update)
  have fin: "final (main failing_env example_config example_storage) =
      example_storage
        \<lparr>content := Decodes (DAList.update ''https://example.org/new'' example_new DAList.empty)\<rparr>"
    by (simp add: failing_run)
  have after: "is_sent (final (main failing_env example_config example_storage))
        ''https://example.org/old'' = Inr False"
    unfolding fin
    by (simp add: is_sent_eq current_store_def example_storage_def DAList.lookup_update)
  have "delivered (main failing_env example_config example_storage) = Some False"
    by (simp add: failing_run)
  with before after show ?thesis
    by blast
qed


end
